theory Spec2Isabelle
  imports Complex_Main "HOL-Library.Word" "HOL-Library.Log_Nat"
begin

section \<open>Go integers\<close>

text \<open>
  Go's \<^verbatim>\<open>int\<close> is a 64-bit two's complement integer on the platforms the tool is built
  for. It is modelled as a HOL \<open>int\<close>; every addition, subtraction and multiplication of
  the source is followed by \<open>i64\<close>, which wraps the mathematical result into the
  range \<open>-2^63 ..< 2^63\<close>. \<open>i32\<close> is the same for \<^verbatim>\<open>int32\<close>.
\<close>

definition i64 :: "int \<Rightarrow> int" where
  "i64 v = (v + 2 ^ 63) mod 2 ^ 64 - 2 ^ 63"

definition i32 :: "int \<Rightarrow> int" where
  "i32 v = (v + 2 ^ 31) mod 2 ^ 32 - 2 ^ 31"

definition in64 :: "int \<Rightarrow> bool" where
  "in64 v \<longleftrightarrow> - (2 ^ 63) \<le> v \<and> v < 2 ^ 63"

text \<open>Go's integer division truncates toward zero (the divisors of the source are the constant 2).\<close>

definition quo :: "int \<Rightarrow> int \<Rightarrow> int" where
  "quo a b = sgn a * sgn b * (\<bar>a\<bar> div \<bar>b\<bar>)"

section \<open>Package image: points, rectangles, colours\<close>

record Point =
  X :: int
  Y :: int

record Rectangle =
  Min_pt :: Point
  Max_pt :: Point

record RGBA_color =
  R :: "8 word"
  G :: "8 word"
  B :: "8 word"
  A :: "8 word"

definition Pt :: "int \<Rightarrow> int \<Rightarrow> Point" where
  "Pt x y = \<lparr>X = x, Y = y\<rparr>"

text \<open>\<^verbatim>\<open>image.Rect(x0, y0, x1, y1)\<close>: the rectangle with its corners put in order.\<close>

definition image_Rect :: "int \<Rightarrow> int \<Rightarrow> int \<Rightarrow> int \<Rightarrow> Rectangle" where
  "image_Rect x0 y0 x1 y1 =
     (let (xa, xb) = (if x0 > x1 then (x1, x0) else (x0, x1));
          (ya, yb) = (if y0 > y1 then (y1, y0) else (y0, y1))
      in \<lparr>Min_pt = Pt xa ya, Max_pt = Pt xb yb\<rparr>)"

definition ZR :: Rectangle where
  "ZR = \<lparr>Min_pt = Pt 0 0, Max_pt = Pt 0 0\<rparr>"

definition Dx :: "Rectangle \<Rightarrow> int" where
  "Dx r = i64 (X (Max_pt r) - X (Min_pt r))"

definition Dy :: "Rectangle \<Rightarrow> int" where
  "Dy r = i64 (Y (Max_pt r) - Y (Min_pt r))"

definition Empty :: "Rectangle \<Rightarrow> bool" where
  "Empty r \<longleftrightarrow> X (Min_pt r) \<ge> X (Max_pt r) \<or> Y (Min_pt r) \<ge> Y (Max_pt r)"

definition In :: "Point \<Rightarrow> Rectangle \<Rightarrow> bool" where
  "In p r \<longleftrightarrow> X (Min_pt r) \<le> X p \<and> X p < X (Max_pt r) \<and> Y (Min_pt r) \<le> Y p \<and> Y p < Y (Max_pt r)"

definition Sub_pt :: "Point \<Rightarrow> Point \<Rightarrow> Point" where
  "Sub_pt p q = Pt (i64 (X p - X q)) (i64 (Y p - Y q))"

definition Add_rect :: "Rectangle \<Rightarrow> Point \<Rightarrow> Rectangle" where
  "Add_rect r p =
     \<lparr>Min_pt = Pt (i64 (X (Min_pt r) + X p)) (i64 (Y (Min_pt r) + Y p)),
      Max_pt = Pt (i64 (X (Max_pt r) + X p)) (i64 (Y (Max_pt r) + Y p))\<rparr>"

definition Intersect :: "Rectangle \<Rightarrow> Rectangle \<Rightarrow> Rectangle" where
  "Intersect r s =
     (let x0 = (if X (Min_pt r) < X (Min_pt s) then X (Min_pt s) else X (Min_pt r));
          y0 = (if Y (Min_pt r) < Y (Min_pt s) then Y (Min_pt s) else Y (Min_pt r));
          x1 = (if X (Max_pt r) > X (Max_pt s) then X (Max_pt s) else X (Max_pt r));
          y1 = (if Y (Max_pt r) > Y (Max_pt s) then Y (Max_pt s) else Y (Max_pt r));
          r' = \<lparr>Min_pt = Pt x0 y0, Max_pt = Pt x1 y1\<rparr>
      in if Empty r' then ZR else r')"

text \<open>
  A source image is what the \<^verbatim>\<open>image.Image\<close> interface exposes: its bounds and its colour
  at each point. The colour is taken in the RGBA colour model (8-bit, alpha-premultiplied),
  which is what \<^verbatim>\<open>draw.Draw\<close> stores into an \<^verbatim>\<open>*image.RGBA\<close> destination.
\<close>

record Image =
  Bounds :: Rectangle
  At :: "int \<Rightarrow> int \<Rightarrow> RGBA_color"

text \<open>
  \<^verbatim>\<open>*image.RGBA\<close>: the rectangle and the pixel store. The store is addressed by
  coordinates instead of by offsets into \<^verbatim>\<open>Pix\<close>; only the points of \<open>Rect\<close> are pixels
  of the image.
\<close>

record RGBA =
  Rect :: Rectangle
  Pix :: "int \<times> int \<Rightarrow> RGBA_color"

definition zero_color :: RGBA_color where
  "zero_color = \<lparr>R = 0, G = 0, B = 0, A = 0\<rparr>"

definition RGBAAt :: "RGBA \<Rightarrow> int \<Rightarrow> int \<Rightarrow> RGBA_color" where
  "RGBAAt p x y = (if \<not> In (Pt x y) (Rect p) then zero_color else Pix p (x, y))"

text \<open>
  \<^verbatim>\<open>mul3NonNeg\<close> and \<^verbatim>\<open>pixelBufferLength\<close> of package image: \<^verbatim>\<open>NewRGBA\<close> panics
  (``Rectangle has huge or negative dimensions'') when the buffer length
  \<open>4 * Dx * Dy\<close> is not a non-negative \<^verbatim>\<open>int\<close>.
\<close>

definition mul3NonNeg :: "int \<Rightarrow> int \<Rightarrow> int \<Rightarrow> int" where
  "mul3NonNeg x y z =
     (if x < 0 \<or> y < 0 \<or> z < 0 then -1
      else if x * y \<ge> 2 ^ 64 then -1
      else if x * y * z \<ge> 2 ^ 64 then -1
      else if x * y * z \<ge> 2 ^ 63 then -1
      else x * y * z)"

text \<open>
  The errors \<^verbatim>\<open>processImage\<close> returns, one per \<^verbatim>\<open>fmt.Errorf\<close> of the source (the
  unsupported-format error carries the format and the path). A panic is not a returned
  error: it ends the program.
\<close>

datatype error =
    NotWritable
  | OpenFailed
  | DecodeFailed
  | UnsupportedFormat string string
  | FontLoadFailed
  | MkdirFailed
  | CreateFailed
  | EncodeFailed

datatype failure = Panicked | Returned error

definition NewRGBA :: "Rectangle \<Rightarrow> failure + RGBA" where
  "NewRGBA r =
     (if mul3NonNeg 4 (Dx r) (Dy r) < 0 then Inl Panicked
      else Inr \<lparr>Rect = r, Pix = (\<lambda>_. zero_color)\<rparr>)"

text \<open>\<^verbatim>\<open>image.Uniform\<close>: one colour everywhere; its \<^verbatim>\<open>Bounds()\<close> are \<open>\<plusminus>1e9\<close>.\<close>

definition Uniform :: "RGBA_color \<Rightarrow> Image" where
  "Uniform c =
     \<lparr>Bounds = \<lparr>Min_pt = Pt (- 1000000000) (- 1000000000), Max_pt = Pt 1000000000 1000000000\<rparr>,
      At = (\<lambda>_ _. c)\<rparr>"

section \<open>Package draw: \<^verbatim>\<open>draw.Draw\<close> with the \<^verbatim>\<open>Src\<close> operator\<close>

text \<open>
  \<^verbatim>\<open>clip\<close> restricts the destination rectangle to the destination's bounds and to the
  source's bounds (moved so that \<open>sp\<close> lies on \<open>r.Min\<close>), and moves \<open>sp\<close> with it.
\<close>

definition clip :: "Rectangle \<Rightarrow> Rectangle \<Rightarrow> Rectangle \<Rightarrow> Point \<Rightarrow> Rectangle \<times> Point" where
  "clip dstb r srcb sp =
     (let orig = Min_pt r;
          r1 = Intersect r dstb;
          r2 = Intersect r1 (Add_rect srcb (Sub_pt orig sp));
          dx = i64 (X (Min_pt r2) - X orig);
          dy = i64 (Y (Min_pt r2) - Y orig)
      in (r2, Pt (i64 (X sp + dx)) (i64 (Y sp + dy))))"

text \<open>
  \<^verbatim>\<open>draw.Draw(dst, r, src, sp, draw.Src)\<close>: after clipping, every pixel of \<open>r\<close> is replaced
  by the source colour at the corresponding point; nothing of the old pixel remains.
\<close>

definition Draw_Src :: "RGBA \<Rightarrow> Rectangle \<Rightarrow> Image \<Rightarrow> Point \<Rightarrow> RGBA" where
  "Draw_Src dst r src sp =
     (let (r', sp') = clip (Rect dst) r (Bounds src) sp
      in if Empty r' then dst
         else dst\<lparr>Pix := (\<lambda>(x, y).
                if In (Pt x y) r'
                then At src (i64 (X sp' + i64 (x - X (Min_pt r')))) (i64 (Y sp' + i64 (y - Y (Min_pt r'))))
                else Pix dst (x, y))\<rparr>)"

section \<open>The font face\<close>

text \<open>
  The rasteriser of \<^verbatim>\<open>golang.org/x/image/font\<close> is an external collaborator. A face is
  known by three things: the rounded width \<^verbatim>\<open>MeasureString\<close> gives for a text, which
  pixels \<^verbatim>\<open>DrawString\<close> touches when the dot is at a given 26.6 fixed-point position
  (the glyph ink), and the colour an inked pixel gets from the text colour and its old
  colour.
\<close>

record Face =
  measure :: "string \<Rightarrow> int"
  ink :: "string \<Rightarrow> int \<Rightarrow> int \<Rightarrow> int \<Rightarrow> int \<Rightarrow> bool"
  paint :: "string \<Rightarrow> int \<Rightarrow> int \<Rightarrow> RGBA_color \<Rightarrow> int \<Rightarrow> int \<Rightarrow> RGBA_color \<Rightarrow> RGBA_color"

text \<open>\<^verbatim>\<open>fixed.I(i)\<close> is \<^verbatim>\<open>Int26_6(i << 6)\<close>, an \<^verbatim>\<open>int32\<close>.\<close>

definition fixed_I :: "int \<Rightarrow> int" where
  "fixed_I i = i32 (i64 (i * 64))"

definition measureText :: "Face \<Rightarrow> string \<Rightarrow> int" where
  "measureText face text = measure face text"

definition addLabel :: "RGBA \<Rightarrow> string \<Rightarrow> int \<Rightarrow> int \<Rightarrow> RGBA_color \<Rightarrow> Face \<Rightarrow> RGBA" where
  "addLabel img text x y col face =
     img\<lparr>Pix := (\<lambda>(px, py).
        if In (Pt px py) (Rect img) \<and> ink face text (fixed_I x) (fixed_I y) px py
        then paint face text (fixed_I x) (fixed_I y) col px py (Pix img (px, py))
        else Pix img (px, py))\<rparr>"

section \<open>The margin: \<^verbatim>\<open>int(0.05 * float64(width))\<close>\<close>

text \<open>
  A finite binary64 value is \<open>m * 2^e\<close> with \<open>\<bar>m\<bar> < 2^53\<close>. \<open>round53\<close> rounds an
  exact value \<open>m * 2^e\<close> to the nearest such value, ties to even, which is what the
  conversion \<^verbatim>\<open>float64(width)\<close> and the multiplication do (the exponents met here are far
  from the overflow and subnormal ranges). The constant \<^verbatim>\<open>0.05\<close> is the binary64 value
  \<open>3602879701896397 * 2^-56\<close>. The conversion to \<^verbatim>\<open>int\<close> truncates toward zero.
\<close>

definition rne :: "int \<Rightarrow> nat \<Rightarrow> int" where
  "rne p k =
     (let q = p div 2 ^ k; r = p mod 2 ^ k
      in if 2 * r < 2 ^ k then q
         else if 2 * r > 2 ^ k then q + 1
         else if even q then q else q + 1)"

definition round53 :: "int \<times> int \<Rightarrow> int \<times> int" where
  "round53 v =
     (let m = fst v; e = snd v; b = bitlen \<bar>m\<bar>
      in if b \<le> 53 then (m, e)
         else (sgn m * rne \<bar>m\<bar> (nat (b - 53)), e + (b - 53)))"

definition float64_of_int :: "int \<Rightarrow> int \<times> int" where
  "float64_of_int n = round53 (n, 0)"

definition float64_mul :: "int \<times> int \<Rightarrow> int \<times> int \<Rightarrow> int \<times> int" where
  "float64_mul a b = round53 (fst a * fst b, snd a + snd b)"

definition float64_0_05 :: "int \<times> int" where
  "float64_0_05 = (3602879701896397, - 56)"

definition int_of_float64 :: "int \<times> int \<Rightarrow> int" where
  "int_of_float64 v =
     (let m = fst v; e = snd v
      in if e \<ge> 0 then m * 2 ^ nat e else sgn m * (\<bar>m\<bar> div 2 ^ nat (- e)))"

definition marginX_of :: "int \<Rightarrow> int" where
  "marginX_of width = int_of_float64 (float64_mul float64_0_05 (float64_of_int width))"

section \<open>main.go\<close>

record BannerMode =
  BgColor :: RGBA_color
  TextColor :: RGBA_color
  Text :: string

definition rgba :: "8 word \<Rightarrow> 8 word \<Rightarrow> 8 word \<Rightarrow> 8 word \<Rightarrow> RGBA_color" where
  "rgba r g b a = \<lparr>R = r, G = g, B = b, A = a\<rparr>"

definition bannerModes :: "string \<rightharpoonup> BannerMode" where
  "bannerModes =
     [''cui'' \<mapsto> \<lparr>BgColor = rgba 0 255 0 255, TextColor = rgba 0 0 0 255, Text = ''CUI''\<rparr>,
      ''secret'' \<mapsto> \<lparr>BgColor = rgba 255 0 0 255, TextColor = rgba 255 255 255 255, Text = ''SECRET''\<rparr>,
      ''unclassed'' \<mapsto> \<lparr>BgColor = rgba 0 0 0 255, TextColor = rgba 255 255 255 255, Text = ''UNCLASSIFIED''\<rparr>,
      ''custom'' \<mapsto> \<lparr>BgColor = rgba 255 255 255 255, TextColor = rgba 0 0 0 255, Text = ''CUSTOM''\<rparr>]"

subsection \<open>The environment\<close>

text \<open>
  \<^verbatim>\<open>processImage\<close> talks to the file system, the decoders, the embedded font and the
  encoders. \<open>answers\<close> is what they answer during one call, in the order of the calls:
  \<^item> \<open>statNotExist\<close>: \<^verbatim>\<open>os.Stat(outputDir)\<close> failed with a not-exist error;
  \<^item> \<open>testFileCreated\<close>: \<^verbatim>\<open>os.Create\<close> of the write test file succeeded;
  \<^item> \<open>opened\<close>: \<^verbatim>\<open>os.Open(imagePath)\<close> succeeded;
  \<^item> \<open>decoded\<close>: the image and format name of \<^verbatim>\<open>image.Decode\<close>, \<open>None\<close> for an error;
  \<^item> \<open>fontFace\<close>: the face of \<^verbatim>\<open>loadFontFace(36)\<close>, \<open>None\<close> for an error;
  \<^item> \<open>dirMade\<close>: \<^verbatim>\<open>os.MkdirAll(outputDir)\<close> succeeded;
  \<^item> \<open>outputCreated\<close>: \<^verbatim>\<open>os.Create(outputPath)\<close> succeeded;
  \<^item> \<open>encoded\<close>: the encoder returned no error.
  \<open>OS\<close> gathers the answers for each image path with \<^verbatim>\<open>os.ReadDir\<close>
  (\<open>None\<close> for an error) and the functions of \<^verbatim>\<open>path/filepath\<close>.
\<close>

record answers =
  statNotExist :: bool
  testFileCreated :: bool
  opened :: bool
  decoded :: "(Image \<times> string) option"
  fontFace :: "Face option"
  dirMade :: bool
  outputCreated :: bool
  encoded :: bool

record DirEntry =
  Name :: string
  IsDir :: bool

record OS =
  ReadDir :: "string \<Rightarrow> DirEntry list option"
  Join :: "string \<Rightarrow> string \<Rightarrow> string"
  Base :: "string \<Rightarrow> string"
  run :: "string \<Rightarrow> answers"

subsection \<open>\<^verbatim>\<open>processImage\<close>\<close>

text \<open>
  Lines 222 to 243: the new image with room for the banners, the two banner fills and the
  copy of the original image.
\<close>

definition compose :: "Image \<Rightarrow> BannerMode \<Rightarrow> int \<Rightarrow> failure + RGBA" where
  "compose img banner bannerHeight =
     (let bounds = Bounds img;
          width = Dx bounds;
          height = Dy bounds;
          newHeight = i64 (height + i64 (2 * bannerHeight))
      in case NewRGBA (image_Rect 0 0 width newHeight) of
           Inl f \<Rightarrow> Inl f
         | Inr newImg \<Rightarrow>
             (let topBanner = image_Rect 0 0 width bannerHeight;
                  bottomBanner = image_Rect 0 (i64 (newHeight - bannerHeight)) width newHeight;
                  img1 = Draw_Src newImg topBanner (Uniform (BgColor banner)) (Pt 0 0);
                  img2 = Draw_Src img1 bottomBanner (Uniform (BgColor banner)) (Pt 0 0);
                  img3 = Draw_Src img2
                           (image_Rect 0 bannerHeight width (i64 (bannerHeight + height)))
                           img (Min_pt bounds)
              in Inr img3))"

text \<open>
  Lines 252 to 289: the calls of \<^verbatim>\<open>addLabel\<close> in their order, each with its text, its
  \<open>x\<close>, its \<open>y\<close> and its colour. The \<^verbatim>\<open>default\<close> branch of the switch takes every
  location that is not \<^verbatim>\<open>"corners"\<close>.
\<close>

type_synonym label = "string \<times> int \<times> int \<times> RGBA_color"

definition labelCalls :: "Face \<Rightarrow> BannerMode \<Rightarrow> string \<Rightarrow> int \<Rightarrow> int \<Rightarrow> int \<Rightarrow> label list" where
  "labelCalls face banner loc width newHeight bannerHeight =
     (if loc = ''corners'' then
        (let marginX = marginX_of width;
             topY = i64 (quo bannerHeight 2 + 10);
             botY = i64 (i64 (newHeight - quo bannerHeight 2) + 10);
             txtWidth = measureText face (Text banner)
         in [(Text banner, marginX, topY, TextColor banner),
             (Text banner, i64 (i64 (width - marginX) - txtWidth), topY, TextColor banner),
             (Text banner, marginX, botY, TextColor banner),
             (Text banner, i64 (i64 (width - marginX) - txtWidth), botY, TextColor banner)])
      else
        (let topY = i64 (quo bannerHeight 2 + 10);
             botY = i64 (i64 (newHeight - quo bannerHeight 2) + 10);
             txtWidth = measureText face (Text banner);
             centerX = i64 (quo width 2 - quo txtWidth 2)
         in [(Text banner, centerX, topY, TextColor banner),
             (Text banner, centerX, botY, TextColor banner)]))"

definition drawLabels :: "RGBA \<Rightarrow> label list \<Rightarrow> Face \<Rightarrow> RGBA" where
  "drawLabels img calls face = foldl (\<lambda>im (t, x, y, c). addLabel im t x y c face) img calls"

text \<open>What a successful call leaves behind: the file written, the encoder used, the bitmap encoded.\<close>

record written =
  outputPath :: string
  encoder :: string
  bitmap :: RGBA

definition processImage ::
  "OS \<Rightarrow> string \<Rightarrow> BannerMode \<Rightarrow> string \<Rightarrow> int \<Rightarrow> string \<Rightarrow> failure + written" where
  "processImage os imagePath banner outputDir bannerHeight loc =
     (let ans = run os imagePath in
      if \<not> statNotExist ans \<and> \<not> testFileCreated ans then Inl (Returned NotWritable)
      else if \<not> opened ans then Inl (Returned OpenFailed)
      else case decoded ans of
        None \<Rightarrow> Inl (Returned DecodeFailed)
      | Some (img, format) \<Rightarrow>
          if format \<noteq> ''jpeg'' \<and> format \<noteq> ''png''
          then Inl (Returned (UnsupportedFormat format imagePath))
          else
            (let width = Dx (Bounds img);
                 height = Dy (Bounds img);
                 newHeight = i64 (height + i64 (2 * bannerHeight))
             in case compose img banner bannerHeight of
                  Inl f \<Rightarrow> Inl f
                | Inr newImg \<Rightarrow>
                    (case fontFace ans of
                       None \<Rightarrow> Inl (Returned FontLoadFailed)
                     | Some face \<Rightarrow>
                         (let newImg' = drawLabels newImg
                                (labelCalls face banner loc width newHeight bannerHeight) face
                          in if \<not> dirMade ans then Inl (Returned MkdirFailed)
                             else if \<not> outputCreated ans then Inl (Returned CreateFailed)
                             else if \<not> encoded ans then Inl (Returned EncodeFailed)
                             else Inr \<lparr>outputPath = Join os outputDir (Base os imagePath),
                                       encoder = format, bitmap = newImg'\<rparr>))))"

subsection \<open>\<^verbatim>\<open>processDirectory\<close>\<close>

text \<open>
  The loop over the entries carries \<^verbatim>\<open>hasErrors\<close> and the lines printed so far: for each
  file processed, its path and what \<^verbatim>\<open>processImage\<close> returned for it. A panic in
  \<^verbatim>\<open>processImage\<close> is not recovered and ends the loop.
\<close>

datatype dir_error = ReadDirFailed | SomeImagesFailed

type_synonym journal = "(string \<times> (failure + written)) list"

datatype dir_result = Crashed journal | Done journal "dir_error option"

fun dirLoop ::
  "OS \<Rightarrow> string \<Rightarrow> BannerMode \<Rightarrow> string \<Rightarrow> int \<Rightarrow> string \<Rightarrow> DirEntry list \<Rightarrow> bool \<Rightarrow> journal \<Rightarrow> dir_result" where
  "dirLoop os dirPath banner outputDir bannerHeight loc [] hasErrors j =
     Done j (if hasErrors then Some SomeImagesFailed else None)"
| "dirLoop os dirPath banner outputDir bannerHeight loc (file # files) hasErrors j =
     (if \<not> IsDir file then
        (let filePath = Join os dirPath (Name file)
         in case processImage os filePath banner outputDir bannerHeight loc of
              Inl Panicked \<Rightarrow> Crashed j
            | Inl (Returned err) \<Rightarrow>
                dirLoop os dirPath banner outputDir bannerHeight loc files True
                  (j @ [(filePath, Inl (Returned err))])
            | Inr w \<Rightarrow>
                dirLoop os dirPath banner outputDir bannerHeight loc files hasErrors
                  (j @ [(filePath, Inr w)]))
      else dirLoop os dirPath banner outputDir bannerHeight loc files hasErrors j)"

definition processDirectory ::
  "OS \<Rightarrow> string \<Rightarrow> BannerMode \<Rightarrow> string \<Rightarrow> int \<Rightarrow> string \<Rightarrow> dir_result" where
  "processDirectory os dirPath banner outputDir bannerHeight loc =
     (case ReadDir os dirPath of
        None \<Rightarrow> Done [] (Some ReadDirFailed)
      | Some files \<Rightarrow> dirLoop os dirPath banner outputDir bannerHeight loc files False [])"

text \<open>
  \<^verbatim>\<open>parseRGB\<close> once \<^verbatim>\<open>fmt.Sscanf\<close> has read the three integers: the range check and the
  colour, whose alpha is 255.
\<close>

definition parseRGB_scanned :: "int \<Rightarrow> int \<Rightarrow> int \<Rightarrow> RGBA_color option" where
  "parseRGB_scanned r g b =
     (if r < 0 \<or> r > 255 \<or> g < 0 \<or> g > 255 \<or> b < 0 \<or> b > 255 then None
      else Some (rgba (word_of_int r) (word_of_int g) (word_of_int b) 255))"

section \<open>Vocabulary of the specification\<close>

text \<open>
  A valid source bitmap has at least one pixel, and its bounds lie within \<open>\<plusminus>10^9\<close> with a
  width of at most \<open>10^9\<close>: the range package image itself takes for its largest
  rectangle, the bounds of \<^verbatim>\<open>image.Uniform\<close>. A valid banner height is positive and at
  most \<open>10^9\<close>. The canvas fits when the length of its pixel buffer, four bytes per pixel,
  is an \<^verbatim>\<open>int\<close>, so that \<^verbatim>\<open>image.NewRGBA\<close> does not panic. A valid banner has opaque
  colours, as every banner that \<^verbatim>\<open>main\<close> builds has.
\<close>

definition valid_source :: "Image \<Rightarrow> bool" where
  "valid_source img \<longleftrightarrow>
     X (Min_pt (Bounds img)) < X (Max_pt (Bounds img)) \<and>
     Y (Min_pt (Bounds img)) < Y (Max_pt (Bounds img)) \<and>
     - 1000000000 \<le> X (Min_pt (Bounds img)) \<and> X (Max_pt (Bounds img)) \<le> 1000000000 \<and>
     - 1000000000 \<le> Y (Min_pt (Bounds img)) \<and> Y (Max_pt (Bounds img)) \<le> 1000000000 \<and>
     X (Max_pt (Bounds img)) - X (Min_pt (Bounds img)) \<le> 1000000000"

definition valid_height :: "int \<Rightarrow> bool" where
  "valid_height bannerHeight \<longleftrightarrow> 0 < bannerHeight \<and> bannerHeight \<le> 1000000000"

definition canvas_fits :: "Image \<Rightarrow> int \<Rightarrow> bool" where
  "canvas_fits img bannerHeight \<longleftrightarrow>
     4 * (X (Max_pt (Bounds img)) - X (Min_pt (Bounds img)))
       * (Y (Max_pt (Bounds img)) - Y (Min_pt (Bounds img)) + 2 * bannerHeight) < 2 ^ 63"

definition valid_banner :: "BannerMode \<Rightarrow> bool" where
  "valid_banner banner \<longleftrightarrow> A (BgColor banner) = 255 \<and> A (TextColor banner) = 255"

text \<open>
  The environment cooperates on an image path when every step of \<^verbatim>\<open>processImage\<close> other
  than the annotation succeeds: the output directory is absent or writable, the file opens
  and decodes to \<open>img\<close> in one of the two supported formats, the font loads as \<open>face\<close>, and
  the output file is created and encoded.
\<close>

definition cooperative :: "OS \<Rightarrow> string \<Rightarrow> Image \<Rightarrow> string \<Rightarrow> Face \<Rightarrow> bool" where
  "cooperative os imagePath img format face \<longleftrightarrow>
     (statNotExist (run os imagePath) \<or> testFileCreated (run os imagePath)) \<and>
     opened (run os imagePath) \<and>
     decoded (run os imagePath) = Some (img, format) \<and>
     (format = ''jpeg'' \<or> format = ''png'') \<and>
     fontFace (run os imagePath) = Some face \<and>
     dirMade (run os imagePath) \<and> outputCreated (run os imagePath) \<and> encoded (run os imagePath)"

text \<open>A pixel is covered by glyph ink when one of the labels drawn touches it.\<close>

definition inked :: "Face \<Rightarrow> label list \<Rightarrow> int \<Rightarrow> int \<Rightarrow> bool" where
  "inked face calls x y = list_ex (\<lambda>(t, lx, ly, c). ink face t (fixed_I lx) (fixed_I ly) x y) calls"

text \<open>The labels \<^verbatim>\<open>processImage\<close> draws on the canvas of a source image.\<close>

definition labelsOf :: "Face \<Rightarrow> Image \<Rightarrow> BannerMode \<Rightarrow> int \<Rightarrow> string \<Rightarrow> label list" where
  "labelsOf face img banner bannerHeight loc =
     labelCalls face banner loc (Dx (Bounds img))
       (i64 (Dy (Bounds img) + i64 (2 * bannerHeight))) bannerHeight"

text \<open>
  The canvas of lines 222 to 243 in closed form, for valid inputs: the rectangle from the
  origin, the source in the middle band, the background colour above and below it.
\<close>

definition canvas :: "Image \<Rightarrow> BannerMode \<Rightarrow> int \<Rightarrow> RGBA" where
  "canvas img banner bh =
     (let b = Bounds img; w = X (Max_pt b) - X (Min_pt b); h = Y (Max_pt b) - Y (Min_pt b)
      in \<lparr>Rect = \<lparr>Min_pt = Pt 0 0, Max_pt = Pt w (h + 2 * bh)\<rparr>,
          Pix = (\<lambda>(x, y).
            if 0 \<le> x \<and> x < w \<and> bh \<le> y \<and> y < bh + h
            then At img (X (Min_pt b) + x) (Y (Min_pt b) + (y - bh))
            else if 0 \<le> x \<and> x < w \<and> ((0 \<le> y \<and> y < bh) \<or> (bh + h \<le> y \<and> y < h + 2 * bh))
            then BgColor banner else zero_color)\<rparr>)"

text \<open>
  Two images have the same content when they have the same width and height and the same
  colour at the same offset from the minimum of their bounds.
\<close>

definition same_content :: "Image \<Rightarrow> Image \<Rightarrow> bool" where
  "same_content img img' \<longleftrightarrow>
     X (Max_pt (Bounds img')) - X (Min_pt (Bounds img')) = X (Max_pt (Bounds img)) - X (Min_pt (Bounds img)) \<and>
     Y (Max_pt (Bounds img')) - Y (Min_pt (Bounds img')) = Y (Max_pt (Bounds img)) - Y (Min_pt (Bounds img)) \<and>
     (\<forall>i j. 0 \<le> i \<and> i < X (Max_pt (Bounds img)) - X (Min_pt (Bounds img)) \<and>
            0 \<le> j \<and> j < Y (Max_pt (Bounds img)) - Y (Min_pt (Bounds img)) \<longrightarrow>
        At img' (X (Min_pt (Bounds img')) + i) (Y (Min_pt (Bounds img')) + j)
        = At img (X (Min_pt (Bounds img)) + i) (Y (Min_pt (Bounds img)) + j))"

text \<open>
  The colour of a pixel once a label anchored at \<open>(lx, ly)\<close> has been drawn: the paint of
  the face where the label's ink touches the pixel, the old colour elsewhere.
\<close>

definition stamp ::
  "Face \<Rightarrow> string \<Rightarrow> int \<Rightarrow> int \<Rightarrow> RGBA_color \<Rightarrow> int \<Rightarrow> int \<Rightarrow> RGBA_color \<Rightarrow> RGBA_color" where
  "stamp face text lx ly col x y old =
     (if ink face text (fixed_I lx) (fixed_I ly) x y
      then paint face text (fixed_I lx) (fixed_I ly) col x y old
      else old)"

text \<open>
  The sizes the encoders take: \<^verbatim>\<open>jpeg.Encode\<close> returns an error for a side of \<open>2^16\<close> or
  more, \<^verbatim>\<open>png.Encode\<close> for a side that is not positive or is \<open>2^32\<close> or more. The answer
  \<open>encoded\<close> of the environment is taken as given, so an environment cooperates only on
  runs whose bitmap the encoder takes.
\<close>

definition encoder_accepts :: "string \<Rightarrow> RGBA \<Rightarrow> bool" where
  "encoder_accepts format m =
     (if format = ''jpeg'' then Dx (Rect m) < 2 ^ 16 \<and> Dy (Rect m) < 2 ^ 16
      else 0 < Dx (Rect m) \<and> 0 < Dy (Rect m) \<and> Dx (Rect m) < 2 ^ 32 \<and> Dy (Rect m) < 2 ^ 32)"

text \<open>The range in which no sum of a few values overflows.\<close>

definition small :: "int \<Rightarrow> bool" where
  "small v \<longleftrightarrow> - (2 ^ 40) \<le> v \<and> v \<le> 2 ^ 40"

section \<open>Sample inputs\<close>

text \<open>
  A 100 by 50 source, the \<^verbatim>\<open>cui\<close> preset, and a face whose labels are solid blocks: 26
  pixels per character wide and 26 pixels high, standing on the baseline, painted in the
  text colour. The sample system answers every call with success, except that the file
  \<^verbatim>\<open>in/bad.png\<close> does not decode and \<^verbatim>\<open>in/c.gif\<close> decodes in a third format; every
  directory lists three images, the file that does not decode and a subdirectory.
\<close>

definition ex_src :: Image where
  "ex_src = \<lparr>Bounds = \<lparr>Min_pt = Pt 0 0, Max_pt = Pt 100 50\<rparr>,
             At = (\<lambda>x y. rgba (word_of_int x) (word_of_int y) 7 255)\<rparr>"

definition ex_moved :: Image where
  "ex_moved = \<lparr>Bounds = \<lparr>Min_pt = Pt 5 (- 7), Max_pt = Pt 105 43\<rparr>,
               At = (\<lambda>x y. rgba (word_of_int (x - 5)) (word_of_int (y + 7)) 7 255)\<rparr>"

definition cui :: BannerMode where
  "cui = \<lparr>BgColor = rgba 0 255 0 255, TextColor = rgba 0 0 0 255, Text = ''CUI''\<rparr>"

definition ex_face :: Face where
  "ex_face =
     \<lparr>measure = (\<lambda>t. 26 * int (length t)),
      ink = (\<lambda>t dx dy px py.
               dx div 64 \<le> px \<and> px < dx div 64 + 26 * int (length t) \<and>
               dy div 64 - 26 \<le> py \<and> py < dy div 64),
      paint = (\<lambda>t dx dy col px py old. col)\<rparr>"

definition ex_answers :: answers where
  "ex_answers =
     \<lparr>statNotExist = True, testFileCreated = True, opened = True,
      decoded = Some (ex_src, ''png''), fontFace = Some ex_face,
      dirMade = True, outputCreated = True, encoded = True\<rparr>"

definition ex_os :: OS where
  "ex_os =
     \<lparr>ReadDir = (\<lambda>d. Some [\<lparr>Name = ''a.png'', IsDir = False\<rparr>, \<lparr>Name = ''bad.png'', IsDir = False\<rparr>,
                           \<lparr>Name = ''sub'', IsDir = True\<rparr>, \<lparr>Name = ''b.png'', IsDir = False\<rparr>,
                           \<lparr>Name = ''c.png'', IsDir = False\<rparr>]),
      Join = (\<lambda>d n. d @ ''/'' @ n),
      Base = (\<lambda>p. rev (takeWhile (\<lambda>c. c \<noteq> CHR ''/'') (rev p))),
      run = (\<lambda>p. if p = ''in/bad.png'' then ex_answers\<lparr>decoded := None\<rparr>
                else if p = ''in/c.gif'' then ex_answers\<lparr>decoded := Some (ex_src, ''gif'')\<rparr>
                else ex_answers)\<rparr>"

text \<open>The same system when the decoder gives the sample with its bounds moved by (5, -7).\<close>

definition ex_os_moved :: OS where
  "ex_os_moved = ex_os\<lparr>run := (\<lambda>p. ex_answers\<lparr>decoded := Some (ex_moved, ''png'')\<rparr>)\<rparr>"

text \<open>
  A source 39 pixels wide, a banner with a text of one character, and the system whose
  decoder gives that source.
\<close>

definition ex_narrow :: Image where
  "ex_narrow = \<lparr>Bounds = \<lparr>Min_pt = Pt 0 0, Max_pt = Pt 39 50\<rparr>,
                At = (\<lambda>x y. rgba (word_of_int x) (word_of_int y) 7 255)\<rparr>"

definition ex_short :: BannerMode where
  "ex_short = \<lparr>BgColor = rgba 0 255 0 255, TextColor = rgba 0 0 0 255, Text = ''C''\<rparr>"

definition ex_os_narrow :: OS where
  "ex_os_narrow = ex_os\<lparr>run := (\<lambda>p. ex_answers\<lparr>decoded := Some (ex_narrow, ''png'')\<rparr>)\<rparr>"

section \<open>Auxiliary facts\<close>

lemma i64_id: "- (2 ^ 63) \<le> v \<Longrightarrow> v < 2 ^ 63 \<Longrightarrow> i64 v = v"
  by (simp add: i64_def)

lemma image_Rect_ordered:
  "x0 \<le> x1 \<Longrightarrow> y0 \<le> y1 \<Longrightarrow> image_Rect x0 y0 x1 y1 = \<lparr>Min_pt = Pt x0 y0, Max_pt = Pt x1 y1\<rparr>"
  by (simp add: image_Rect_def)

lemma Pt_sel [simp]: "X (Pt x y) = x" "Y (Pt x y) = y"
  by (simp_all add: Pt_def)

lemma Intersect_inside:
  assumes "a < c" "b < d" "sa \<le> a" "c \<le> sc" "sb \<le> b" "d \<le> sd"
  shows "Intersect \<lparr>Min_pt = Pt a b, Max_pt = Pt c d\<rparr> \<lparr>Min_pt = Pt sa sb, Max_pt = Pt sc sd\<rparr>
         = \<lparr>Min_pt = Pt a b, Max_pt = Pt c d\<rparr>"
  using assms by (simp add: Intersect_def Empty_def Let_def)

lemma clip_inside:
  assumes ne: "a < c" "b < d"
    and dst: "da \<le> a" "c \<le> dc" "db \<le> b" "d \<le> dd"
    and src: "sa + (a - px) \<le> a" "c \<le> sc + (a - px)" "sb + (b - py) \<le> b" "d \<le> sd + (b - py)"
    and sm: "small a" "small b" "small c" "small d" "small px" "small py"
            "small sa" "small sb" "small sc" "small sd"
  shows "clip \<lparr>Min_pt = Pt da db, Max_pt = Pt dc dd\<rparr> \<lparr>Min_pt = Pt a b, Max_pt = Pt c d\<rparr>
              \<lparr>Min_pt = Pt sa sb, Max_pt = Pt sc sd\<rparr> (Pt px py)
         = (\<lparr>Min_pt = Pt a b, Max_pt = Pt c d\<rparr>, Pt px py)"
proof -
  have sub: "Sub_pt (Pt a b) (Pt px py) = Pt (a - px) (b - py)"
    using sm by (simp add: Sub_pt_def small_def i64_id)
  have add: "Add_rect \<lparr>Min_pt = Pt sa sb, Max_pt = Pt sc sd\<rparr> (Pt (a - px) (b - py))
             = \<lparr>Min_pt = Pt (sa + (a - px)) (sb + (b - py)), Max_pt = Pt (sc + (a - px)) (sd + (b - py))\<rparr>"
    using sm by (simp add: Add_rect_def small_def i64_id)
  show ?thesis
    unfolding clip_def Let_def
    using ne dst src sm
    by (simp add: Intersect_inside sub add i64_id small_def)
qed

lemma Draw_Src_inside:
  assumes ne: "a < c" "b < d"
    and dst: "Rect dst = \<lparr>Min_pt = Pt da db, Max_pt = Pt dc dd\<rparr>" "da \<le> a" "c \<le> dc" "db \<le> b" "d \<le> dd"
    and src: "Bounds src = \<lparr>Min_pt = Pt sa sb, Max_pt = Pt sc sd\<rparr>"
             "sa + (a - px) \<le> a" "c \<le> sc + (a - px)" "sb + (b - py) \<le> b" "d \<le> sd + (b - py)"
    and sm: "small a" "small b" "small c" "small d" "small px" "small py"
            "small sa" "small sb" "small sc" "small sd"
  shows "Draw_Src dst \<lparr>Min_pt = Pt a b, Max_pt = Pt c d\<rparr> src (Pt px py)
         = dst\<lparr>Pix := (\<lambda>(x, y).
                if a \<le> x \<and> x < c \<and> b \<le> y \<and> y < d
                then At src (px + (x - a)) (py + (y - b))
                else Pix dst (x, y))\<rparr>"
proof -
  have c: "clip (Rect dst) \<lparr>Min_pt = Pt a b, Max_pt = Pt c d\<rparr> (Bounds src) (Pt px py)
           = (\<lparr>Min_pt = Pt a b, Max_pt = Pt c d\<rparr>, Pt px py)"
    unfolding dst(1) src(1) by (rule clip_inside) (use assms in auto)
  show ?thesis
    unfolding Draw_Src_def c using ne sm
    by (auto simp add: Empty_def fun_eq_iff In_def small_def i64_id)
qed


lemma NewRGBA_ok:
  assumes "0 \<le> w" "0 \<le> h" "w \<le> 2 ^ 40" "4 * w * h < 2 ^ 63" "h < 2 ^ 62"
  shows "NewRGBA \<lparr>Min_pt = Pt 0 0, Max_pt = Pt w h\<rparr>
         = Inr \<lparr>Rect = \<lparr>Min_pt = Pt 0 0, Max_pt = Pt w h\<rparr>, Pix = (\<lambda>_. zero_color)\<rparr>"
proof -
  have "Dx \<lparr>Min_pt = Pt 0 0, Max_pt = Pt w h\<rparr> = w" "Dy \<lparr>Min_pt = Pt 0 0, Max_pt = Pt w h\<rparr> = h"
    using assms by (simp_all add: Dx_def Dy_def i64_id)
  moreover have "0 \<le> 4 * w * h" using assms by simp
  moreover have "\<not> 0 \<le> (-1::int)" by simp
  ultimately have "\<not> mul3NonNeg 4 w h < 0"
    using assms unfolding mul3NonNeg_def by (simp add: not_less)
  then show ?thesis
    using \<open>Dx _ = w\<close> \<open>Dy _ = h\<close> by (simp add: NewRGBA_def)
qed

lemma compose_valid:
  assumes v: "valid_source img" "valid_height bh" "canvas_fits img bh"
  shows "compose img banner bh = Inr (canvas img banner bh)"
proof -
  obtain x0 y0 x1 y1 where b: "Bounds img = \<lparr>Min_pt = Pt x0 y0, Max_pt = Pt x1 y1\<rparr>"
    by (metis Pt_def Point.cases Rectangle.cases)
  define w where "w = x1 - x0"
  define h where "h = y1 - y0"
  define nh where "nh = h + 2 * bh"
  have r: "x0 < x1" "y0 < y1" "- 1000000000 \<le> x0" "x1 \<le> 1000000000"
    "- 1000000000 \<le> y0" "y1 \<le> 1000000000" "w \<le> 1000000000" "0 < bh" "bh \<le> 1000000000"
    using v by (simp_all add: valid_source_def valid_height_def b w_def)
  have wh: "0 < w" "0 < h" "h \<le> 2000000000" "nh \<le> 4000000000" "0 < nh"
    using r by (simp_all add: w_def h_def nh_def)
  have fits: "4 * w * nh < 2 ^ 63"
    using v(3) by (simp add: canvas_fits_def b w_def h_def nh_def)
  have dx: "Dx (Bounds img) = w" and dy: "Dy (Bounds img) = h"
    using r by (simp_all add: b Dx_def Dy_def w_def h_def i64_id)
  have nh': "i64 (h + i64 (2 * bh)) = nh"
    using r wh by (simp add: nh_def i64_id)
  let ?new = "\<lparr>Rect = \<lparr>Min_pt = Pt 0 0, Max_pt = Pt w nh\<rparr>, Pix = (\<lambda>_. zero_color)\<rparr>"
  have new: "NewRGBA (image_Rect 0 0 w nh) = Inr ?new"
    using wh r fits by (simp add: image_Rect_ordered NewRGBA_ok)
  let ?bg = "Uniform (BgColor banner)"
  have ub: "Bounds ?bg = \<lparr>Min_pt = Pt (- 1000000000) (- 1000000000), Max_pt = Pt 1000000000 1000000000\<rparr>"
    by (simp add: Uniform_def)
  let ?img1 = "?new\<lparr>Pix := (\<lambda>(x, y). if 0 \<le> x \<and> x < w \<and> 0 \<le> y \<and> y < bh
                 then At ?bg (0 + (x - 0)) (0 + (y - 0)) else Pix ?new (x, y))\<rparr>"
  have d1: "Draw_Src ?new (image_Rect 0 0 w bh) ?bg (Pt 0 0) = ?img1"
    unfolding image_Rect_ordered[of 0 w 0 bh, OF less_imp_le[OF wh(1)] less_imp_le[OF r(8)]]
    by (rule Draw_Src_inside[where da = 0 and db = 0 and dc = w and dd = nh, OF _ _ _ _ _ _ _ ub])
       (use r wh in \<open>simp_all add: small_def nh_def\<close>)
  let ?img2 = "?img1\<lparr>Pix := (\<lambda>(x, y). if 0 \<le> x \<and> x < w \<and> nh - bh \<le> y \<and> y < nh
                 then At ?bg (0 + (x - 0)) (0 + (y - (nh - bh))) else Pix ?img1 (x, y))\<rparr>"
  have nb: "i64 (nh - bh) = nh - bh" using r wh by (simp add: i64_id)
  have d2: "Draw_Src ?img1 (image_Rect 0 (i64 (nh - bh)) w nh) ?bg (Pt 0 0) = ?img2"
    unfolding nb image_Rect_ordered[of 0 w "nh - bh" nh, OF less_imp_le[OF wh(1)], simplified, OF less_imp_le[OF r(8)]]
    by (rule Draw_Src_inside[where da = 0 and db = 0 and dc = w and dd = nh, OF _ _ _ _ _ _ _ ub])
       (use r wh in \<open>simp_all add: small_def nh_def\<close>)
  let ?img3 = "?img2\<lparr>Pix := (\<lambda>(x, y). if 0 \<le> x \<and> x < w \<and> bh \<le> y \<and> y < bh + h
                 then At img (x0 + (x - 0)) (y0 + (y - bh)) else Pix ?img2 (x, y))\<rparr>"
  have bhh: "i64 (bh + h) = bh + h" using r wh by (simp add: i64_id)
  have d3: "Draw_Src ?img2 (image_Rect 0 bh w (i64 (bh + h))) img (Min_pt (Bounds img)) = ?img3"
    unfolding bhh image_Rect_ordered[of 0 w bh "bh + h", OF less_imp_le[OF wh(1)], simplified, OF less_imp_le[OF wh(2)]]
    unfolding b Rectangle.simps
    by (rule Draw_Src_inside[where da = 0 and db = 0 and dc = w and dd = nh, OF _ _ _ _ _ _ _ b])
       (use r wh in \<open>simp_all add: small_def nh_def w_def h_def\<close>)
  have c: "?img3 = canvas img banner bh"
    using r wh
    by (auto simp add: canvas_def b Let_def fun_eq_iff Uniform_def w_def h_def nh_def)
  have "compose img banner bh = Inr ?img3"
    unfolding compose_def Let_def dx dy nh' new
    by (simp only: sum.case d1 d2 d3)
  then show ?thesis by (simp only: c)
qed


lemma rne_bounds:
  assumes "0 \<le> p"
  shows "p div 2 ^ k \<le> rne p k" "rne p k \<le> p div 2 ^ k + 1"
  by (simp_all add: rne_def Let_def)

lemma trunc_nonneg: "0 \<le> m \<Longrightarrow> sgn m * (\<bar>m\<bar> div d) = m div (d::int)"
  by (cases "m = 0") auto

lemma marginX_of_div:
  assumes w: "0 \<le> w" "w < 2 ^ 31"
  shows "marginX_of w = w div 20"
proof -
  define c :: int where "c = 3602879701896397"
  define P :: int where "P = 2 ^ 56"
  define p where "p = c * w"
  define q where "q = w div 20"
  have c20: "20 * c = P + 4" by (simp add: c_def P_def)
  have q: "20 * q \<le> w" "w \<le> 20 * q + 19" "0 \<le> q" "q < 2 ^ 31"
    using w by (simp_all add: q_def) 
  have p0: "0 \<le> p" using w by (simp add: p_def c_def)
  have plo: "q * P \<le> p"
  proof -
    have "q * P \<le> q * (20 * c)" using q(3) unfolding c20 by (simp add: algebra_simps)
    also have "\<dots> = c * (20 * q)" by simp
    also have "\<dots> \<le> c * w" using q(1) by (simp add: c_def)
    finally show ?thesis by (simp add: p_def)
  qed
  have phi: "p + 2 ^ 30 < (q + 1) * P"
  proof -
    have "p \<le> c * (20 * q + 19)" using q(2) by (simp add: p_def c_def)
    also have "\<dots> = q * (20 * c) + 19 * c" by (simp add: algebra_simps)
    also have "\<dots> = q * P + 4 * q + 19 * c" unfolding c20 by (simp add: algebra_simps)
    finally have "p \<le> q * P + 4 * q + 19 * c" .
    moreover have "4 * q + 19 * c + 2 ^ 30 < P" using q(4) by (simp add: c_def P_def)
    ultimately show ?thesis by (simp add: algebra_simps)
  qed
  have fw: "float64_of_int w = (w, 0)"
    using w by (simp add: float64_of_int_def round53_def Let_def bitlen_le_iff_power)
  have mul: "float64_mul float64_0_05 (w, 0) = round53 (p, - 56)"
    by (simp add: float64_mul_def float64_0_05_def p_def c_def)
  show ?thesis
  proof (cases "bitlen p \<le> 53")
    case True
    then have p53: "p < 2 ^ 53" using p0 by (simp add: bitlen_le_iff_power)
    have "q = 0"
    proof (rule ccontr)
      assume "q \<noteq> 0"
      then have "1 \<le> q" using q(3) by simp
      then have "P \<le> q * P" by (simp add: P_def)
      then show False using plo p53 by (simp add: P_def)
    qed
    moreover have "p div 2 ^ 56 = 0" using p53 p0 by simp
    ultimately show ?thesis
      using True p0 unfolding marginX_of_def fw mul q_def[symmetric]
      by (simp add: round53_def Let_def int_of_float64_def)
  next
    case False
    define k where "k = nat (bitlen p - 53)"
    have "p < 2 ^ 83"
    proof -
      have "p < c * 2 ^ 31" using w by (simp add: p_def c_def)
      then show ?thesis by (simp add: c_def)
    qed
    then have "bitlen p \<le> 83" by (simp add: bitlen_le_iff_power)
    then have k: "k \<le> 30" "0 < k" "bitlen p - 53 = int k" using False by (simp_all add: k_def)
    define m where "m = rne p k"
    define U :: int where "U = 2 ^ (56 - k)"
    define V :: int where "V = 2 ^ k"
    have pw: "P = U * V"
      unfolding P_def U_def V_def using k by (simp flip: power_add)
    have V30: "V \<le> 2 ^ 30" unfolding V_def using power_increasing[OF k(1), of "2::int"] by simp
    have pos: "0 < U" "0 < V" by (simp_all add: U_def V_def)
    have mlo: "q * U \<le> m"
    proof -
      have "q * U = (q * U * V) div V" using pos by simp
      also have "\<dots> \<le> p div V" using plo pos by (intro zdiv_mono1) (simp_all add: pw mult.assoc)
      also have "\<dots> \<le> m" unfolding m_def V_def using rne_bounds(1)[OF p0] .
      finally show ?thesis .
    qed
    have mhi: "m < (q + 1) * U"
    proof -
      have "m \<le> p div V + 1" unfolding m_def V_def using rne_bounds(2)[OF p0] .
      moreover have "p div V < (q + 1) * U - 1"
      proof -
        have "((q + 1) * U - 1) * V = (q + 1) * P - V" by (simp add: pw algebra_simps)
        then have "p < ((q + 1) * U - 1) * V"
          using phi V30 by simp
        moreover have "p div V * V + p mod V = p" by simp
        moreover have "0 \<le> p mod V" using pos by simp
        ultimately have "p div V * V < ((q + 1) * U - 1) * V" by linarith
        then show ?thesis using pos by (simp only: mult_less_cancel_right_pos)
      qed
      ultimately show ?thesis by simp
    qed
    have m0: "0 \<le> m" using mlo q(3) pos by (smt (verit) mult_nonneg_nonneg)
    have "m div U = q"
      using mlo mhi by (intro int_div_pos_eq[where r = "m - q * U"]) (simp_all add: algebra_simps)
    moreover have "0 < p"
    proof (rule ccontr)
      assume "\<not> 0 < p"
      then have "bitlen p = 0" by (simp add: bitlen_eq_zero_iff)
      then show False using False by simp
    qed
    then have "round53 (p, - 56) = (m, int k - 56)"
      using False k by (simp add: round53_def Let_def m_def)
    moreover have "nat (56 - int k) = 56 - k" using k by simp
    ultimately show ?thesis
      using k trunc_nonneg[OF m0] unfolding marginX_of_def fw mul q_def[symmetric]
      by (simp add: int_of_float64_def Let_def U_def)
  qed
qed


lemma addLabel_Rect [simp]: "Rect (addLabel img t x y c face) = Rect img"
  by (simp add: addLabel_def)

lemma drawLabels_Rect [simp]: "Rect (drawLabels img calls face) = Rect img"
  unfolding drawLabels_def
  by (induction calls arbitrary: img) (simp_all add: case_prod_beta)

lemma drawLabels_not_inked:
  "\<not> inked face calls x y \<Longrightarrow> Pix (drawLabels img calls face) (x, y) = Pix img (x, y)"
  unfolding drawLabels_def inked_def
  by (induction calls arbitrary: img) (auto simp add: addLabel_def)

lemma processImage_cooperative:
  assumes "cooperative os imagePath img format face"
  shows "processImage os imagePath banner outputDir bannerHeight loc =
           (case compose img banner bannerHeight of
              Inl f \<Rightarrow> Inl f
            | Inr c \<Rightarrow> Inr \<lparr>outputPath = Join os outputDir (Base os imagePath), encoder = format,
                            bitmap = drawLabels c (labelsOf face img banner bannerHeight loc) face\<rparr>)"
  using assms
  by (auto simp add: cooperative_def processImage_def labelsOf_def Let_def split: sum.splits)

lemma processImage_valid:
  assumes "cooperative os imagePath img format face"
    and "valid_source img" "valid_height bannerHeight" "canvas_fits img bannerHeight"
  shows "processImage os imagePath banner outputDir bannerHeight loc =
           Inr \<lparr>outputPath = Join os outputDir (Base os imagePath), encoder = format,
                bitmap = drawLabels (canvas img banner bannerHeight)
                           (labelsOf face img banner bannerHeight loc) face\<rparr>"
  by (simp add: processImage_cooperative[OF assms(1)] compose_valid[OF assms(2-4)])

lemma Dx_valid: "valid_source img \<Longrightarrow> Dx (Bounds img) = X (Max_pt (Bounds img)) - X (Min_pt (Bounds img))"
  by (simp add: valid_source_def Dx_def i64_id)

lemma Dy_valid: "valid_source img \<Longrightarrow> Dy (Bounds img) = Y (Max_pt (Bounds img)) - Y (Min_pt (Bounds img))"
  by (simp add: valid_source_def Dy_def i64_id)

lemma canvas_Rect:
  "Rect (canvas img banner bh) =
     \<lparr>Min_pt = Pt 0 0,
      Max_pt = Pt (X (Max_pt (Bounds img)) - X (Min_pt (Bounds img)))
                  (Y (Max_pt (Bounds img)) - Y (Min_pt (Bounds img)) + 2 * bh)\<rparr>"
  by (simp add: canvas_def Let_def)

lemma ex_cooperative:
  "p \<noteq> ''in/bad.png'' \<Longrightarrow> p \<noteq> ''in/c.gif'' \<Longrightarrow> cooperative ex_os p ex_src ''png'' ex_face"
  by (simp add: cooperative_def ex_os_def ex_answers_def)

lemma ex_valid: "valid_source ex_src" "valid_height 60" "canvas_fits ex_src 60"
  by (simp_all add: valid_source_def valid_height_def canvas_fits_def ex_src_def)

lemma canvas_middle:
  assumes "valid_source img" "0 \<le> x" "x < Dx (Bounds img)" "bh \<le> y" "y < bh + Dy (Bounds img)" "0 < bh"
  shows "RGBAAt (canvas img banner bh) x y = At img (X (Min_pt (Bounds img)) + x) (Y (Min_pt (Bounds img)) + (y - bh))"
  using assms by (simp add: Dx_valid Dy_valid RGBAAt_def In_def canvas_def Let_def)

lemma canvas_band:
  assumes "valid_source img" "0 \<le> x" "x < Dx (Bounds img)" "0 < bh"
    and "(0 \<le> y \<and> y < bh) \<or> (Dy (Bounds img) + bh \<le> y \<and> y < Dy (Bounds img) + 2 * bh)"
  shows "RGBAAt (canvas img banner bh) x y = BgColor banner"
  using assms by (auto simp add: Dx_valid Dy_valid RGBAAt_def In_def canvas_def Let_def valid_source_def)

lemma RGBAAt_drawLabels:
  "\<not> inked face calls x y \<Longrightarrow> RGBAAt (drawLabels img calls face) x y = RGBAAt img x y"
  by (simp add: RGBAAt_def drawLabels_not_inked)

lemma ex_labels_center_60:
  "labelsOf ex_face ex_src cui 60 ''center'' = [(''CUI'', 11, 40, rgba 0 0 0 255), (''CUI'', 11, 150, rgba 0 0 0 255)]"
  by (simp add: labelsOf_def labelCalls_def Let_def measureText_def ex_face_def ex_src_def cui_def
      Dx_def Dy_def i64_def quo_def)

lemma bannerModes_valid: "bannerModes k = Some banner \<Longrightarrow> valid_banner banner"
  by (auto simp add: bannerModes_def valid_banner_def rgba_def split: if_splits)

lemma parseRGB_scanned_opaque: "parseRGB_scanned r g b = Some c \<Longrightarrow> A c = 255"
  by (auto simp add: parseRGB_scanned_def rgba_def split: if_splits)

lemma quo_2_nonneg: "0 \<le> a \<Longrightarrow> quo a 2 = a div 2"
  by (cases "a = 0") (simp_all add: quo_def)

lemma quo_2_neg: "a < 0 \<Longrightarrow> quo a 2 = - ((- a) div 2)"
  by (simp add: quo_def)

lemma quo_2_bounds: "in64 a \<Longrightarrow> - (2 ^ 62) \<le> quo a 2 \<and> quo a 2 < 2 ^ 62"
  by (cases "0 \<le> a") (auto simp add: quo_2_nonneg quo_2_neg in64_def)

lemma quo_2_even: "even a \<Longrightarrow> 2 * quo a 2 = a"
  by (cases "0 \<le> a") (auto simp add: quo_2_nonneg quo_2_neg)

lemma quo_2_odd: "odd a \<Longrightarrow> 2 * quo a 2 = a - sgn a"
proof (cases "0 \<le> a")
  case True
  assume "odd a"
  then have "a \<noteq> 0" by auto
  then have "sgn a = 1" using True by simp
  moreover have "2 * (a div 2) = a - 1" using \<open>odd a\<close> by presburger
  ultimately show ?thesis using True by (simp add: quo_2_nonneg)
next
  case False
  assume "odd a"
  then have "2 * ((- a) div 2) = - a - 1" by presburger
  then show ?thesis using False by (simp add: quo_2_neg)
qed

lemma dirLoop_journal:
  assumes "\<forall>file\<in>set files. \<not> IsDir file \<longrightarrow>
             processImage os (Join os dirPath (Name file)) banner outputDir bannerHeight loc \<noteq> Inl Panicked"
  shows "dirLoop os dirPath banner outputDir bannerHeight loc files hasErrors j =
           Done (j @ map (\<lambda>file. (Join os dirPath (Name file),
                              processImage os (Join os dirPath (Name file)) banner outputDir bannerHeight loc))
                       (filter (\<lambda>file. \<not> IsDir file) files))
                (if hasErrors \<or> (\<exists>file\<in>set files. \<not> IsDir file \<and>
                       isl (processImage os (Join os dirPath (Name file)) banner outputDir bannerHeight loc))
                 then Some SomeImagesFailed else None)"
  using assms
proof (induction files arbitrary: hasErrors j)
  case Nil
  then show ?case by simp
next
  case (Cons entry rest)
  show ?case
  proof (cases "IsDir entry")
    case True
    then show ?thesis using Cons by simp
  next
    case False
    let ?r = "processImage os (Join os dirPath (Name entry)) banner outputDir bannerHeight loc"
    have np: "?r \<noteq> Inl Panicked" using Cons.prems False by simp
    show ?thesis
    proof (cases ?r)
      case (Inl f)
      then obtain err where e: "?r = Inl (Returned err)" using np by (cases f) auto
      show ?thesis using False Cons e by (simp add: Let_def)
    next
      case (Inr w)
      then show ?thesis using False Cons by (simp add: Let_def)
    qed
  qed
qed

lemma ex_bad: "processImage ex_os ''in/bad.png'' cui ''out'' 60 ''center'' = Inl (Returned DecodeFailed)"
  by (simp add: processImage_def ex_os_def ex_answers_def)

lemma ex_good:
  assumes "p \<noteq> ''in/bad.png''" "p \<noteq> ''in/c.gif''"
  shows "\<not> isl (processImage ex_os p cui ''out'' 60 ''center'')"
  by (simp add: processImage_valid[OF ex_cooperative[OF assms] ex_valid])

lemma canvas_same_content:
  assumes "same_content img img'"
  shows "canvas img' banner bh = canvas img banner bh"
  using assms by (auto simp add: canvas_def Let_def same_content_def fun_eq_iff)

lemma ex_huge_compose: "compose ex_src cui 3000000000000000000 = Inl Panicked"
proof -
  have d: "Dx (Bounds ex_src) = 100" "Dy (Bounds ex_src) = 50"
    by (simp_all add: Dx_def Dy_def ex_src_def i64_def)
  have n: "i64 (50 + i64 (2 * 3000000000000000000)) = 6000000000000000050"
    by (simp add: i64_def)
  have r: "image_Rect 0 0 100 6000000000000000050
           = \<lparr>Min_pt = Pt 0 0, Max_pt = Pt 100 6000000000000000050\<rparr>"
    by (simp add: image_Rect_ordered)
  have m: "mul3NonNeg 4 100 6000000000000000050 = - 1"
    by (simp add: mul3NonNeg_def)
  have "NewRGBA (image_Rect 0 0 100 6000000000000000050) = Inl Panicked"
    unfolding r by (simp add: NewRGBA_def Dx_def Dy_def i64_def m)
  then show ?thesis
    unfolding compose_def Let_def d n by simp
qed


lemma ex_huge_panics:
  "processImage ex_os ''in/a.png'' cui ''out'' 3000000000000000000 ''center'' = Inl Panicked"
  by (simp add: processImage_cooperative[OF ex_cooperative] ex_huge_compose)

lemma Intersect_empty: "Empty r \<Longrightarrow> Intersect r s = ZR"
  by (auto simp add: Intersect_def Empty_def Let_def)

lemma Intersect_ZR: "Intersect ZR s = ZR"
  by (auto simp add: Intersect_def Empty_def Let_def ZR_def)

lemma Draw_Src_empty: "Empty r \<Longrightarrow> Draw_Src dst r src sp = dst"
  by (simp add: Draw_Src_def clip_def Let_def Intersect_empty Intersect_ZR) (simp add: Empty_def ZR_def)

lemma compose_zero:
  assumes v: "valid_source img"
  shows "compose img banner 0 = Inr (canvas img banner 0)"
proof -
  obtain x0 y0 x1 y1 where b: "Bounds img = \<lparr>Min_pt = Pt x0 y0, Max_pt = Pt x1 y1\<rparr>"
    by (metis Pt_def Point.cases Rectangle.cases)
  define w where "w = x1 - x0"
  define h where "h = y1 - y0"
  have r: "x0 < x1" "y0 < y1" "- 1000000000 \<le> x0" "x1 \<le> 1000000000"
    "- 1000000000 \<le> y0" "y1 \<le> 1000000000" "w \<le> 1000000000"
    using v by (simp_all add: valid_source_def b w_def)
  have wh: "0 < w" "0 < h" "h \<le> 2000000000"
    using r by (simp_all add: w_def h_def)
  have "w * h \<le> 1000000000 * 2000000000"
    using r wh by (intro mult_mono) simp_all
  then have fits: "4 * w * h < 2 ^ 63" by (simp add: mult.commute)
  have dx: "Dx (Bounds img) = w" and dy: "Dy (Bounds img) = h"
    using r by (simp_all add: b Dx_def Dy_def w_def h_def i64_id)
  have nh: "i64 (h + i64 (2 * 0)) = h" "i64 (h - 0) = h" "i64 (0 + h) = h"
    using wh by (simp_all add: i64_id)
  let ?new = "\<lparr>Rect = \<lparr>Min_pt = Pt 0 0, Max_pt = Pt w h\<rparr>, Pix = (\<lambda>_. zero_color)\<rparr>"
  have new: "NewRGBA (image_Rect 0 0 w h) = Inr ?new"
    using wh r fits by (simp add: image_Rect_ordered NewRGBA_ok)
  let ?bg = "Uniform (BgColor banner)"
  have d1: "Draw_Src ?new (image_Rect 0 0 w 0) ?bg (Pt 0 0) = ?new"
    by (rule Draw_Src_empty) (simp add: image_Rect_def Empty_def)
  have d2: "Draw_Src ?new (image_Rect 0 h w h) ?bg (Pt 0 0) = ?new"
    by (rule Draw_Src_empty) (simp add: image_Rect_def Empty_def)
  let ?img3 = "?new\<lparr>Pix := (\<lambda>(x, y). if 0 \<le> x \<and> x < w \<and> 0 \<le> y \<and> y < h
                 then At img (x0 + (x - 0)) (y0 + (y - 0)) else Pix ?new (x, y))\<rparr>"
  have d3: "Draw_Src ?new (image_Rect 0 0 w h) img (Min_pt (Bounds img)) = ?img3"
    unfolding image_Rect_ordered[of 0 w 0 h, OF less_imp_le[OF wh(1)] less_imp_le[OF wh(2)]]
    unfolding b Rectangle.simps
    by (rule Draw_Src_inside[where da = 0 and db = 0 and dc = w and dd = h, OF _ _ _ _ _ _ _ b])
       (use r wh in \<open>simp_all add: small_def w_def h_def\<close>)
  have c: "?img3 = canvas img banner 0"
    using r wh
    by (auto simp add: canvas_def b Let_def fun_eq_iff w_def h_def)
  have "compose img banner 0 = Inr ?img3"
    unfolding compose_def Let_def dx dy nh new
    by (simp only: sum.case d1 d2 d3 nh)
  then show ?thesis by (simp only: c)
qed

lemma RGBAAt_addLabel:
  "In (Pt x y) (Rect img) \<Longrightarrow>
   RGBAAt (addLabel img t lx ly c face) x y = stamp face t lx ly c x y (RGBAAt img x y)"
  by (simp add: RGBAAt_def addLabel_def stamp_def)

lemma In_addLabel [simp]: "In p (Rect (addLabel img t lx ly c face)) = In p (Rect img)"
  by simp

lemma valid_layout:
  assumes "valid_source img" "valid_height bh"
  shows "0 < Dx (Bounds img)" "Dx (Bounds img) \<le> 1000000000"
        "0 < Dy (Bounds img)" "Dy (Bounds img) \<le> 2000000000"
        "i64 (Dy (Bounds img) + i64 (2 * bh)) = Dy (Bounds img) + 2 * bh"
        "i64 (quo bh 2 + 10) = quo bh 2 + 10"
        "i64 (i64 (Dy (Bounds img) + 2 * bh - quo bh 2) + 10) = Dy (Bounds img) + 2 * bh - quo bh 2 + 10"
proof -
  have b: "0 < bh" "bh \<le> 1000000000" using assms(2) by (simp_all add: valid_height_def)
  show d: "0 < Dx (Bounds img)" "Dx (Bounds img) \<le> 1000000000"
        "0 < Dy (Bounds img)" "Dy (Bounds img) \<le> 2000000000"
    using assms(1) by (simp_all add: Dx_valid Dy_valid) (simp_all add: valid_source_def)
  have q: "quo bh 2 = bh div 2" using b by (simp add: quo_2_nonneg)
  have q': "0 \<le> bh div 2" "bh div 2 \<le> bh" using b by simp_all
  show "i64 (Dy (Bounds img) + i64 (2 * bh)) = Dy (Bounds img) + 2 * bh"
    using d b by (simp add: i64_id)
  show "i64 (quo bh 2 + 10) = quo bh 2 + 10"
    using q' b by (simp add: q i64_id)
  show "i64 (i64 (Dy (Bounds img) + 2 * bh - quo bh 2) + 10) = Dy (Bounds img) + 2 * bh - quo bh 2 + 10"
    using q' b d by (simp add: q i64_id)
qed

lemma labelsOf_corners:
  assumes "valid_source img" "valid_height bh" "\<bar>measure face (Text banner)\<bar> \<le> 2 ^ 61"
  shows "labelsOf face img banner bh ''corners'' =
           [(Text banner, Dx (Bounds img) div 20, quo bh 2 + 10, TextColor banner),
            (Text banner, Dx (Bounds img) - Dx (Bounds img) div 20 - measure face (Text banner),
             quo bh 2 + 10, TextColor banner),
            (Text banner, Dx (Bounds img) div 20,
             Dy (Bounds img) + 2 * bh - quo bh 2 + 10, TextColor banner),
            (Text banner, Dx (Bounds img) - Dx (Bounds img) div 20 - measure face (Text banner),
             Dy (Bounds img) + 2 * bh - quo bh 2 + 10, TextColor banner)]"
proof -
  note l = valid_layout[OF assms(1,2)]
  have m: "marginX_of (Dx (Bounds img)) = Dx (Bounds img) div 20"
    using l(1,2) by (intro marginX_of_div) simp_all
  have "0 \<le> Dx (Bounds img) div 20" "Dx (Bounds img) div 20 \<le> Dx (Bounds img)"
    using l(1) by simp_all
  then have r: "i64 (i64 (Dx (Bounds img) - Dx (Bounds img) div 20) - measure face (Text banner))
        = Dx (Bounds img) - Dx (Bounds img) div 20 - measure face (Text banner)"
    using assms(3) l(1,2) by (simp add: i64_id abs_le_iff)
  show ?thesis
    by (simp add: labelsOf_def labelCalls_def Let_def m measureText_def r l(5,6,7))
qed

lemma labelsOf_default:
  assumes "valid_source img" "valid_height bh" "in64 (measure face (Text banner))" "loc \<noteq> ''corners''"
  shows "labelsOf face img banner bh loc =
           [(Text banner, quo (Dx (Bounds img)) 2 - quo (measure face (Text banner)) 2,
             quo bh 2 + 10, TextColor banner),
            (Text banner, quo (Dx (Bounds img)) 2 - quo (measure face (Text banner)) 2,
             Dy (Bounds img) + 2 * bh - quo bh 2 + 10, TextColor banner)]"
proof -
  note l = valid_layout[OF assms(1,2)]
  have "in64 (Dx (Bounds img))" using l(1,2) by (simp add: in64_def)
  then have "i64 (quo (Dx (Bounds img)) 2 - quo (measure face (Text banner)) 2)
        = quo (Dx (Bounds img)) 2 - quo (measure face (Text banner)) 2"
    using quo_2_bounds[of "Dx (Bounds img)"] quo_2_bounds[OF assms(3)] by (simp add: i64_id)
  then show ?thesis
    using assms(4) by (simp add: labelsOf_def labelCalls_def Let_def measureText_def l(5,6,7))
qed

lemma canvas_In:
  assumes "valid_source img" "0 \<le> x" "x < Dx (Bounds img)" "0 \<le> y" "y < Dy (Bounds img) + 2 * bh"
  shows "In (Pt x y) (Rect (canvas img banner bh))"
  using assms by (simp add: canvas_Rect In_def Dx_valid Dy_valid)

lemma ex_narrow_valid: "valid_source ex_narrow" "canvas_fits ex_narrow 60"
  by (simp_all add: valid_source_def canvas_fits_def ex_narrow_def)

lemma ex_narrow_cooperative: "cooperative ex_os_narrow p ex_narrow ''png'' ex_face"
  by (simp add: cooperative_def ex_os_narrow_def ex_answers_def)

section \<open>The claims\<close>

text \<open>
  C1. For every valid source bitmap and banner height, and whatever the banner, the
  location and the paths, \<^verbatim>\<open>processImage\<close> in a cooperating environment writes a bitmap
  whose width is the width of the source and whose height is the height of the source plus
  twice the banner height.
\<close>

theorem output_dimensions:
  assumes "cooperative os imagePath img format face"
    and "valid_source img" "valid_height bannerHeight" "canvas_fits img bannerHeight"
  shows "\<exists>w. processImage os imagePath banner outputDir bannerHeight loc = Inr w \<and>
             Dx (Rect (bitmap w)) = Dx (Bounds img) \<and>
             Dy (Rect (bitmap w)) = Dy (Bounds img) + 2 * bannerHeight"
proof -
  have "Dx (Rect (canvas img banner bannerHeight)) = Dx (Bounds img)"
    using assms(2) by (simp add: canvas_Rect Dx_valid) (simp add: Dx_def valid_source_def i64_id)
  moreover have "Dy (Rect (canvas img banner bannerHeight)) = Dy (Bounds img) + 2 * bannerHeight"
    using assms(2,3) by (simp add: canvas_Rect Dy_valid) (simp add: Dy_def valid_source_def valid_height_def i64_id)
  ultimately show ?thesis
    by (simp add: processImage_valid[OF assms])
qed

text \<open>The 100 by 50 sample with banners of 60 rows gives a bitmap of 100 by 170.\<close>

theorem output_dimensions_witness:
  "cooperative ex_os ''in/a.png'' ex_src ''png'' ex_face \<and> valid_source ex_src \<and> valid_height 60 \<and>
   canvas_fits ex_src 60 \<and>
   (\<exists>w. processImage ex_os ''in/a.png'' cui ''out'' 60 ''center'' = Inr w \<and>
        Dx (Rect (bitmap w)) = 100 \<and> Dy (Rect (bitmap w)) = 170)"
proof -
  have c: "cooperative ex_os ''in/a.png'' ex_src ''png'' ex_face"
    by (simp add: cooperative_def ex_os_def ex_answers_def)
  have v: "valid_source ex_src" "valid_height 60" "canvas_fits ex_src 60"
    by (simp_all add: valid_source_def valid_height_def canvas_fits_def ex_src_def)
  have d: "Dx (Bounds ex_src) = 100" "Dy (Bounds ex_src) = 50"
    by (simp_all add: Dx_def Dy_def ex_src_def i64_def)
  show ?thesis
    using output_dimensions[OF c v, of cui "''out''" "''center''"] c v by (simp add: d)
qed


text \<open>
  C2, as the program has it. The claim says that every pixel of the middle band of the
  output equals the source pixel at \<open>(x, y - bannerHeight)\<close>. The copy of lines 237 to 243
  does exactly that: on the canvas, before the labels are drawn, every pixel of the middle
  band is the source pixel, alpha included, taken from the minimum of the source's bounds.
  The labels are drawn afterwards with their baseline at \<open>bannerHeight/2 + 10\<close>, inside the
  middle band when the banner is low, so in the bitmap written the equality holds for the
  pixels of the middle band that no glyph ink covers.
\<close>

theorem middle_band_copy:
  assumes "cooperative os imagePath img format face"
    and "valid_source img" "valid_height bannerHeight" "canvas_fits img bannerHeight"
    and "0 \<le> x" "x < Dx (Bounds img)"
    and "bannerHeight \<le> y" "y < bannerHeight + Dy (Bounds img)"
  shows "(\<exists>c. compose img banner bannerHeight = Inr c \<and>
              RGBAAt c x y = At img (X (Min_pt (Bounds img)) + x)
                                    (Y (Min_pt (Bounds img)) + (y - bannerHeight))) \<and>
         (\<exists>w. processImage os imagePath banner outputDir bannerHeight loc = Inr w \<and>
              (\<not> inked face (labelsOf face img banner bannerHeight loc) x y \<longrightarrow>
               RGBAAt (bitmap w) x y = At img (X (Min_pt (Bounds img)) + x)
                                              (Y (Min_pt (Bounds img)) + (y - bannerHeight))))"
proof -
  have bh: "0 < bannerHeight" using assms(3) by (simp add: valid_height_def)
  have m: "RGBAAt (canvas img banner bannerHeight) x y
           = At img (X (Min_pt (Bounds img)) + x) (Y (Min_pt (Bounds img)) + (y - bannerHeight))"
    by (rule canvas_middle[OF assms(2) assms(5-8) bh])
  show ?thesis
    by (simp add: compose_valid[OF assms(2-4)] processImage_valid[OF assms(1-4)] RGBAAt_drawLabels m)
qed

text \<open>On the sample with banners of 60 rows, output pixel (3, 61) is source pixel (3, 1).\<close>

theorem middle_band_copy_witness:
  "cooperative ex_os ''in/a.png'' ex_src ''png'' ex_face \<and> valid_source ex_src \<and> valid_height 60 \<and>
   canvas_fits ex_src 60 \<and> \<not> inked ex_face (labelsOf ex_face ex_src cui 60 ''center'') 3 61 \<and>
   (\<exists>c. compose ex_src cui 60 = Inr c \<and> RGBAAt c 3 61 = rgba 3 1 7 255) \<and>
   (\<exists>w. processImage ex_os ''in/a.png'' cui ''out'' 60 ''center'' = Inr w \<and>
        RGBAAt (bitmap w) 3 61 = rgba 3 1 7 255)"
proof -
  have c: "cooperative ex_os ''in/a.png'' ex_src ''png'' ex_face"
    by (simp add: ex_cooperative)
  have d: "Dx (Bounds ex_src) = 100" "Dy (Bounds ex_src) = 50"
    by (simp_all add: Dx_def Dy_def ex_src_def i64_def)
  have n: "\<not> inked ex_face (labelsOf ex_face ex_src cui 60 ''center'') 3 61"
    unfolding ex_labels_center_60
    by (simp add: inked_def ex_face_def fixed_I_def i64_def i32_def)
  have s: "At ex_src (X (Min_pt (Bounds ex_src)) + 3) (Y (Min_pt (Bounds ex_src)) + 1) = rgba 3 1 7 255"
    by (simp add: ex_src_def)
  show ?thesis
    using middle_band_copy[OF c ex_valid, of 3 61 cui "''out''" "''center''"] c ex_valid n
    by (simp add: d s)
qed

text \<open>
  The claim as stated fails: with banners of 10 rows the baseline of the top label is row 15,
  and the label covers output pixel (11, 10), which is in the middle band and is written in
  the text colour, not in the colour of source pixel (11, 0).
\<close>

theorem middle_band_inked_counterexample:
  "cooperative ex_os ''in/a.png'' ex_src ''png'' ex_face \<and> valid_source ex_src \<and> valid_height 10 \<and>
   canvas_fits ex_src 10 \<and>
   \<not> isl (processImage ex_os ''in/a.png'' cui ''out'' 10 ''center'') \<and>
   RGBAAt (bitmap (projr (processImage ex_os ''in/a.png'' cui ''out'' 10 ''center''))) 11 10 = rgba 0 0 0 255 \<and>
   At ex_src 11 0 = rgba 11 0 7 255 \<and>
   RGBAAt (bitmap (projr (processImage ex_os ''in/a.png'' cui ''out'' 10 ''center''))) 11 10 \<noteq> At ex_src 11 (10 - 10)"
proof -
  have c: "cooperative ex_os ''in/a.png'' ex_src ''png'' ex_face"
    by (simp add: ex_cooperative)
  have v: "valid_source ex_src" "valid_height 10" "canvas_fits ex_src 10"
    by (simp_all add: valid_source_def valid_height_def canvas_fits_def ex_src_def)
  have l: "labelsOf ex_face ex_src cui 10 ''center'' = [(''CUI'', 11, 15, rgba 0 0 0 255), (''CUI'', 11, 75, rgba 0 0 0 255)]"
    by (simp add: labelsOf_def labelCalls_def Let_def measureText_def ex_face_def ex_src_def cui_def
      Dx_def Dy_def i64_def quo_def)
  have p: "RGBAAt (drawLabels (canvas ex_src cui 10) (labelsOf ex_face ex_src cui 10 ''center'') ex_face) 11 10
           = rgba 0 0 0 255"
    unfolding l
    by (simp add: RGBAAt_def drawLabels_def addLabel_def In_def canvas_def Let_def ex_src_def
        ex_face_def fixed_I_def i64_def i32_def)
  have "rgba 0 0 0 255 \<noteq> rgba 11 0 7 255" by (simp add: rgba_def)
  then show ?thesis
    using c v by (simp add: processImage_valid[OF c v] p) (simp add: ex_src_def)
qed


text \<open>
  C3. For every valid source bitmap, banner height and banner, every pixel of the bitmap
  written that lies in the top band (\<open>y < bannerHeight\<close>) or in the bottom band
  (\<open>y \<ge> height - bannerHeight\<close>, with the height of the output) and that no glyph ink
  covers is the background colour of the banner, with alpha 255. The fill of lines 230 to
  235 uses the \<^verbatim>\<open>Src\<close> operator: the colour written does not depend on what was there.
\<close>

theorem banner_fill:
  assumes "cooperative os imagePath img format face"
    and "valid_source img" "valid_height bannerHeight" "canvas_fits img bannerHeight"
    and "valid_banner banner"
    and "0 \<le> x" "x < Dx (Bounds img)"
    and "\<not> inked face (labelsOf face img banner bannerHeight loc) x y"
  shows "\<exists>w. processImage os imagePath banner outputDir bannerHeight loc = Inr w \<and>
             ((0 \<le> y \<and> y < bannerHeight) \<or>
              (Dy (Rect (bitmap w)) - bannerHeight \<le> y \<and> y < Dy (Rect (bitmap w))) \<longrightarrow>
              RGBAAt (bitmap w) x y = BgColor banner \<and> A (RGBAAt (bitmap w) x y) = 255)"
proof -
  have bh: "0 < bannerHeight" "bannerHeight \<le> 1000000000" using assms(3) by (simp_all add: valid_height_def)
  have dy: "Dy (Rect (canvas img banner bannerHeight)) = Dy (Bounds img) + 2 * bannerHeight"
    using assms(2) bh by (simp add: canvas_Rect Dy_valid) (simp add: Dy_def valid_source_def i64_id)
  have "RGBAAt (canvas img banner bannerHeight) x y = BgColor banner"
    if "(0 \<le> y \<and> y < bannerHeight) \<or>
        (Dy (Bounds img) + 2 * bannerHeight - bannerHeight \<le> y \<and> y < Dy (Bounds img) + 2 * bannerHeight)"
    using that by (intro canvas_band[OF assms(2) assms(6,7) bh(1)]) auto
  then show ?thesis
    using assms(5)
    by (simp add: processImage_valid[OF assms(1-4)] RGBAAt_drawLabels[OF assms(8)] dy valid_banner_def)
qed

text \<open>
  On the sample with banners of 60 rows, pixel (0, 59) of the top band and pixel (99, 110)
  of the bottom band are the green of the \<^verbatim>\<open>cui\<close> preset.
\<close>

theorem banner_fill_witness:
  "cooperative ex_os ''in/a.png'' ex_src ''png'' ex_face \<and> valid_source ex_src \<and> valid_height 60 \<and>
   canvas_fits ex_src 60 \<and> valid_banner cui \<and>
   \<not> inked ex_face (labelsOf ex_face ex_src cui 60 ''center'') 0 59 \<and>
   \<not> inked ex_face (labelsOf ex_face ex_src cui 60 ''center'') 99 110 \<and>
   (\<exists>w. processImage ex_os ''in/a.png'' cui ''out'' 60 ''center'' = Inr w \<and>
        RGBAAt (bitmap w) 0 59 = rgba 0 255 0 255) \<and>
   (\<exists>w. processImage ex_os ''in/a.png'' cui ''out'' 60 ''center'' = Inr w \<and>
        Dy (Rect (bitmap w)) - 60 \<le> 110 \<and> 110 < Dy (Rect (bitmap w)) \<and>
        RGBAAt (bitmap w) 99 110 = rgba 0 255 0 255)"
proof -
  have c: "cooperative ex_os ''in/a.png'' ex_src ''png'' ex_face"
    by (simp add: ex_cooperative)
  have b: "valid_banner cui" "BgColor cui = rgba 0 255 0 255"
    by (simp_all add: valid_banner_def cui_def rgba_def)
  have d: "Dx (Bounds ex_src) = 100" "Dy (Bounds ex_src) = 50"
    by (simp_all add: Dx_def Dy_def ex_src_def i64_def)
  have n: "\<not> inked ex_face (labelsOf ex_face ex_src cui 60 ''center'') 0 59"
          "\<not> inked ex_face (labelsOf ex_face ex_src cui 60 ''center'') 99 110"
    unfolding ex_labels_center_60
    by (simp_all add: inked_def ex_face_def fixed_I_def i64_def i32_def)
  have h: "Dy (Rect (canvas ex_src cui 60)) = 170"
    by (simp add: canvas_Rect Dy_def ex_src_def i64_def)
  have t: "\<exists>w. processImage ex_os ''in/a.png'' cui ''out'' 60 ''center'' = Inr w \<and>
        RGBAAt (bitmap w) 0 59 = rgba 0 255 0 255"
    using banner_fill[OF c ex_valid b(1) _ _ n(1), of "''out''"]
    by (auto simp add: d b(2))
  have u: "\<exists>w. processImage ex_os ''in/a.png'' cui ''out'' 60 ''center'' = Inr w \<and>
        Dy (Rect (bitmap w)) - 60 \<le> 110 \<and> 110 < Dy (Rect (bitmap w)) \<and>
        RGBAAt (bitmap w) 99 110 = rgba 0 255 0 255"
    using banner_fill[OF c ex_valid b(1) _ _ n(2), of "''out''"]
    by (auto simp add: d b(2) processImage_valid[OF c ex_valid] h)
  show ?thesis using c ex_valid b(1) n t u by simp
qed


text \<open>
  C4, as the program has it. The claim says that the operation fails with an
  invalid-dimension error when the banner height is not positive or the source has no
  width or no height. \<^verbatim>\<open>processImage\<close> has no such check and no such error. With a banner
  height of 0 and a valid source it returns success in a cooperating environment: the
  bitmap written has the dimensions of the source, which the PNG encoder takes (and the
  JPEG encoder when both sides are below \<open>2^16\<close>), and its pixels that no glyph ink covers are
  the pixels of the source. Nothing is said here of banner heights below 0 or of sources
  without width or height.
\<close>

theorem no_dimension_check:
  assumes "cooperative os imagePath img format face" "valid_source img"
    and "0 \<le> x" "x < Dx (Bounds img)" "0 \<le> y" "y < Dy (Bounds img)"
  shows "\<exists>w. processImage os imagePath banner outputDir 0 loc = Inr w \<and>
             Dx (Rect (bitmap w)) = Dx (Bounds img) \<and>
             Dy (Rect (bitmap w)) = Dy (Bounds img) \<and>
             encoder_accepts ''png'' (bitmap w) \<and>
             (Dx (Bounds img) < 2 ^ 16 \<and> Dy (Bounds img) < 2 ^ 16 \<longrightarrow>
                encoder_accepts ''jpeg'' (bitmap w)) \<and>
             (\<not> inked face (labelsOf face img banner 0 loc) x y \<longrightarrow>
                RGBAAt (bitmap w) x y
                = At img (X (Min_pt (Bounds img)) + x) (Y (Min_pt (Bounds img)) + y))"
proof -
  have p: "processImage os imagePath banner outputDir 0 loc
           = Inr \<lparr>outputPath = Join os outputDir (Base os imagePath), encoder = format,
                  bitmap = drawLabels (canvas img banner 0) (labelsOf face img banner 0 loc) face\<rparr>"
    by (simp add: processImage_cooperative[OF assms(1)] compose_zero[OF assms(2)])
  have dx: "Dx (Rect (canvas img banner 0)) = Dx (Bounds img)"
    using assms(2) by (simp add: canvas_Rect Dx_valid) (simp add: Dx_def valid_source_def i64_id)
  have dy: "Dy (Rect (canvas img banner 0)) = Dy (Bounds img)"
    using assms(2) by (simp add: canvas_Rect Dy_valid) (simp add: Dy_def valid_source_def i64_id)
  have s: "0 < Dx (Bounds img)" "Dx (Bounds img) < 2 ^ 32" "0 < Dy (Bounds img)" "Dy (Bounds img) < 2 ^ 32"
    using assms(2) by (simp_all add: Dx_valid Dy_valid) (simp_all add: valid_source_def)
  have m: "RGBAAt (canvas img banner 0) x y
           = At img (X (Min_pt (Bounds img)) + x) (Y (Min_pt (Bounds img)) + y)"
    using assms(2-6) by (simp add: Dx_valid Dy_valid RGBAAt_def In_def canvas_def Let_def)
  show ?thesis
    using s by (simp add: p dx dy encoder_accepts_def RGBAAt_drawLabels m)
qed

text \<open>The sample with a banner height of 0: a bitmap of 100 by 50.\<close>

theorem no_dimension_check_witness:
  "cooperative ex_os ''in/a.png'' ex_src ''png'' ex_face \<and> valid_source ex_src \<and>
   \<not> inked ex_face (labelsOf ex_face ex_src cui 0 ''center'') 3 20 \<and>
   (\<exists>w. processImage ex_os ''in/a.png'' cui ''out'' 0 ''center'' = Inr w \<and>
        Dx (Rect (bitmap w)) = 100 \<and> Dy (Rect (bitmap w)) = 50 \<and>
        encoder_accepts ''png'' (bitmap w) \<and>
        RGBAAt (bitmap w) 3 20 = rgba 3 20 7 255)"
proof -
  have c: "cooperative ex_os ''in/a.png'' ex_src ''png'' ex_face"
    by (simp add: ex_cooperative)
  have d: "Dx (Bounds ex_src) = 100" "Dy (Bounds ex_src) = 50"
    by (simp_all add: Dx_def Dy_def ex_src_def i64_def)
  have l: "labelsOf ex_face ex_src cui 0 ''center''
           = [(''CUI'', 11, 10, rgba 0 0 0 255), (''CUI'', 11, 60, rgba 0 0 0 255)]"
    by (simp add: labelsOf_def labelCalls_def Let_def measureText_def ex_face_def ex_src_def cui_def
      Dx_def Dy_def i64_def quo_def)
  have n: "\<not> inked ex_face (labelsOf ex_face ex_src cui 0 ''center'') 3 20"
    unfolding l by (simp add: inked_def ex_face_def fixed_I_def i64_def i32_def)
  have s: "At ex_src (X (Min_pt (Bounds ex_src)) + 3) (Y (Min_pt (Bounds ex_src)) + 20) = rgba 3 20 7 255"
    by (simp add: ex_src_def)
  show ?thesis
    using no_dimension_check[OF c ex_valid(1), of 3 20 cui "''out''" "''center''"] c ex_valid(1) n
    by (auto simp add: d s)
qed

text \<open>
  The claim as stated fails: with a banner height of 0 the call on the sample is not a
  failure.
\<close>

theorem zero_banner_height_counterexample:
  "(0::int) \<le> 0 \<and> \<not> isl (processImage ex_os ''in/a.png'' cui ''out'' 0 ''center'')"
proof -
  have c: "cooperative ex_os ''in/a.png'' ex_src ''png'' ex_face"
    by (simp add: ex_cooperative)
  show ?thesis
    by (simp add: processImage_cooperative[OF c] compose_zero[OF ex_valid(1)])
qed


text \<open>
  C5, as the program has it. In both placement modes the labels of the top banner have
  their anchor at \<open>bannerHeight/2 + 10\<close> and those of the bottom banner at
  \<open>newHeight - bannerHeight/2 + 10\<close>, with Go's integer division and the same offset of 10
  (for heights of magnitude up to \<open>2^61\<close>, where nothing overflows). The claim gives the
  bottom anchor as the top expression moved by \<open>newHeight - bannerHeight\<close>: that is the same
  row when the banner height is even, and one row less than the program's when it is odd
  and positive.
\<close>

theorem label_anchors:
  assumes "\<bar>bannerHeight\<bar> \<le> 2 ^ 61" "\<bar>newHeight\<bar> \<le> 2 ^ 61"
  shows "map (\<lambda>(t, x, y, c). y) (labelCalls face banner loc width newHeight bannerHeight) =
           (if loc = ''corners''
            then [quo bannerHeight 2 + 10, quo bannerHeight 2 + 10,
                  newHeight - quo bannerHeight 2 + 10, newHeight - quo bannerHeight 2 + 10]
            else [quo bannerHeight 2 + 10, newHeight - quo bannerHeight 2 + 10]) \<and>
         (even bannerHeight \<longrightarrow>
            newHeight - quo bannerHeight 2 + 10
            = (quo bannerHeight 2 + 10) + (newHeight - bannerHeight)) \<and>
         (odd bannerHeight \<longrightarrow>
            newHeight - quo bannerHeight 2 + 10
            = (quo bannerHeight 2 + 10) + (newHeight - bannerHeight) + sgn bannerHeight)"
proof -
  have "in64 bannerHeight" using assms(1) by (auto simp add: in64_def abs_le_iff)
  then have q: "- (2 ^ 62) \<le> quo bannerHeight 2" "quo bannerHeight 2 < 2 ^ 62"
    using quo_2_bounds by simp_all
  have t: "i64 (quo bannerHeight 2 + 10) = quo bannerHeight 2 + 10"
    using q by (simp add: i64_id)
  have q': "\<bar>quo bannerHeight 2\<bar> \<le> 2 ^ 61"
    using assms(1) by (cases "0 \<le> bannerHeight") (auto simp add: quo_2_nonneg quo_2_neg)
  have b: "i64 (i64 (newHeight - quo bannerHeight 2) + 10) = newHeight - quo bannerHeight 2 + 10"
    using q' assms(2) by (simp add: i64_id)
  have "map (\<lambda>(t, x, y, c). y) (labelCalls face banner loc width newHeight bannerHeight) =
           (if loc = ''corners''
            then [quo bannerHeight 2 + 10, quo bannerHeight 2 + 10,
                  newHeight - quo bannerHeight 2 + 10, newHeight - quo bannerHeight 2 + 10]
            else [quo bannerHeight 2 + 10, newHeight - quo bannerHeight 2 + 10])"
    by (simp add: labelCalls_def Let_def t b)
  moreover have "even bannerHeight \<longrightarrow>
           newHeight - quo bannerHeight 2 + 10 = (quo bannerHeight 2 + 10) + (newHeight - bannerHeight)"
    using quo_2_even[of bannerHeight] by auto
  moreover have "odd bannerHeight \<longrightarrow>
           newHeight - quo bannerHeight 2 + 10
           = (quo bannerHeight 2 + 10) + (newHeight - bannerHeight) + sgn bannerHeight"
    using quo_2_odd[of bannerHeight] by auto
  ultimately show ?thesis by blast
qed

text \<open>Banners of 60 rows on an output of 170 rows: anchors at rows 40 and 150.\<close>

theorem label_anchors_witness:
  "\<bar>60::int\<bar> \<le> 2 ^ 61 \<and> \<bar>170::int\<bar> \<le> 2 ^ 61 \<and> even (60::int) \<and>
   map (\<lambda>(t, x, y, c). y) (labelCalls ex_face cui ''corners'' 100 170 60) = [40, 40, 150, 150] \<and>
   map (\<lambda>(t, x, y, c). y) (labelCalls ex_face cui ''center'' 100 170 60) = [40, 150] \<and>
   (150::int) = (quo 60 2 + 10) + (170 - 60)"
  using label_anchors[of 60 170 ex_face cui "''corners''" 100]
        label_anchors[of 60 170 ex_face cui "''center''" 100]
  by (simp add: quo_def)

text \<open>
  The claim as stated fails: with banners of 61 rows on the sample, the output has 172 rows
  and the bottom label is anchored at row 152, while the claimed expression gives 151.
\<close>

theorem odd_banner_height_counterexample:
  "labelsOf ex_face ex_src cui 61 ''center'' = [(''CUI'', 11, 40, rgba 0 0 0 255), (''CUI'', 11, 152, rgba 0 0 0 255)] \<and>
   Dy (Bounds ex_src) + 2 * 61 = 172 \<and>
   quo 61 2 + 10 + (172 - 61) = 151"
  by (simp add: labelsOf_def labelCalls_def Let_def measureText_def ex_face_def ex_src_def cui_def
      Dx_def Dy_def i64_def quo_def)


text \<open>
  C6, as the program has it. In the corners mode \<^verbatim>\<open>processImage\<close> writes the canvas with
  four labels drawn on it, in this order: top left, top right, bottom left, bottom right,
  all with the text and the text colour of the banner, so that every pixel of the bitmap
  is the pixel of the canvas stamped by these four labels. The margin is
  \<^verbatim>\<open>int(0.05 * float64(width))\<close> for the width of the image: the conversion truncates, it
  does not round, and the margin is the integer quotient of the width by 20. The left
  labels are at \<open>x = margin\<close> and the right labels at \<open>x = width - margin - textWidth\<close>,
  with the measured width of the text.
\<close>

theorem corner_labels:
  assumes "cooperative os imagePath img format face"
    and "valid_source img" "valid_height bannerHeight" "canvas_fits img bannerHeight"
    and "\<bar>measure face (Text banner)\<bar> \<le> 2 ^ 61"
    and "0 \<le> x" "x < Dx (Bounds img)" "0 \<le> y" "y < Dy (Bounds img) + 2 * bannerHeight"
  shows "let margin = Dx (Bounds img) div 20;
             right = Dx (Bounds img) - margin - measure face (Text banner);
             topY = quo bannerHeight 2 + 10;
             botY = Dy (Bounds img) + 2 * bannerHeight - quo bannerHeight 2 + 10;
             text = Text banner; col = TextColor banner
         in \<exists>c w. compose img banner bannerHeight = Inr c \<and>
               processImage os imagePath banner outputDir bannerHeight ''corners'' = Inr w \<and>
               bitmap w =
                 addLabel (addLabel (addLabel (addLabel c text margin topY col face)
                                       text right topY col face)
                             text margin botY col face)
                   text right botY col face \<and>
               RGBAAt (bitmap w) x y =
                 stamp face text right botY col x y
                   (stamp face text margin botY col x y
                      (stamp face text right topY col x y
                         (stamp face text margin topY col x y (RGBAAt c x y))))"
proof -
  have i: "In (Pt x y) (Rect (canvas img banner bannerHeight))"
    by (rule canvas_In[OF assms(2) assms(6-9)])
  show ?thesis
    unfolding Let_def
    by (simp add: compose_valid[OF assms(2-4)] processImage_valid[OF assms(1-4)]
        labelsOf_corners[OF assms(2,3,5)] drawLabels_def RGBAAt_addLabel i)
qed


text \<open>
  The sample of width 100: margin 5, text width 78, right labels at 17; pixel (5, 39), green
  on the canvas, is under the top left label and black in the bitmap.
\<close>

theorem corner_labels_witness:
  "cooperative ex_os ''in/a.png'' ex_src ''png'' ex_face \<and> valid_source ex_src \<and> valid_height 60 \<and>
   canvas_fits ex_src 60 \<and> \<bar>measure ex_face (Text cui)\<bar> \<le> 2 ^ 61 \<and>
   (\<exists>c w. compose ex_src cui 60 = Inr c \<and>
       processImage ex_os ''in/a.png'' cui ''out'' 60 ''corners'' = Inr w \<and>
       bitmap w =
         addLabel (addLabel (addLabel (addLabel c ''CUI'' 5 40 (rgba 0 0 0 255) ex_face)
                               ''CUI'' 17 40 (rgba 0 0 0 255) ex_face)
                     ''CUI'' 5 150 (rgba 0 0 0 255) ex_face)
           ''CUI'' 17 150 (rgba 0 0 0 255) ex_face \<and>
       RGBAAt c 5 39 = rgba 0 255 0 255 \<and> RGBAAt (bitmap w) 5 39 = rgba 0 0 0 255)"
proof -
  have c: "cooperative ex_os ''in/a.png'' ex_src ''png'' ex_face"
    by (simp add: ex_cooperative)
  have t: "\<bar>measure ex_face (Text cui)\<bar> \<le> 2 ^ 61"
    by (simp add: ex_face_def cui_def)
  have d: "Dx (Bounds ex_src) = 100" "Dy (Bounds ex_src) = 50"
    by (simp_all add: Dx_def Dy_def ex_src_def i64_def)
  have e: "Text cui = ''CUI''" "TextColor cui = rgba 0 0 0 255" "measure ex_face ''CUI'' = 78"
          "quo 60 2 = 30"
    by (simp_all add: quo_def ex_face_def cui_def)
  have g: "RGBAAt (canvas ex_src cui 60) 5 39 = rgba 0 255 0 255"
    by (simp add: RGBAAt_def In_def canvas_def Let_def ex_src_def cui_def)
  have s: "stamp ex_face ''CUI'' 17 150 (rgba 0 0 0 255) 5 39
             (stamp ex_face ''CUI'' 5 150 (rgba 0 0 0 255) 5 39
                (stamp ex_face ''CUI'' 17 40 (rgba 0 0 0 255) 5 39
                   (stamp ex_face ''CUI'' 5 40 (rgba 0 0 0 255) 5 39 (rgba 0 255 0 255))))
           = rgba 0 0 0 255"
    by (simp add: stamp_def ex_face_def fixed_I_def i64_def i32_def)
  have "\<exists>c w. compose ex_src cui 60 = Inr c \<and>
       processImage ex_os ''in/a.png'' cui ''out'' 60 ''corners'' = Inr w \<and>
       bitmap w =
         addLabel (addLabel (addLabel (addLabel c ''CUI'' 5 40 (rgba 0 0 0 255) ex_face)
                               ''CUI'' 17 40 (rgba 0 0 0 255) ex_face)
                     ''CUI'' 5 150 (rgba 0 0 0 255) ex_face)
           ''CUI'' 17 150 (rgba 0 0 0 255) ex_face \<and>
       RGBAAt c 5 39 = rgba 0 255 0 255 \<and> RGBAAt (bitmap w) 5 39 = rgba 0 0 0 255"
    using corner_labels[OF c ex_valid t, of 5 39 "''out''"]
    unfolding Let_def
    by (auto simp add: d e compose_valid[OF ex_valid] g s)
  then show ?thesis using c ex_valid t by blast
qed

text \<open>
  The claim as stated fails: for an image 39 pixels wide and a text 26 pixels wide the left
  labels are at \<open>x = 1\<close>, so that pixel (1, 39) of the bitmap is in the text colour, while
  \<open>0.05 * 39 = 1.95\<close> rounds to 2 and labels at \<open>x = 2\<close> and \<open>x = 39 - 2 - 26\<close> would leave
  that pixel in the background colour.
\<close>

theorem margin_truncates_counterexample:
  "Dx (Bounds ex_narrow) = 39 \<and> round (0.05 * 39 :: real) = 2 \<and>
   labelsOf ex_face ex_narrow ex_short 60 ''corners'' =
     [(''C'', 1, 40, rgba 0 0 0 255), (''C'', 12, 40, rgba 0 0 0 255),
      (''C'', 1, 150, rgba 0 0 0 255), (''C'', 12, 150, rgba 0 0 0 255)] \<and>
   \<not> isl (processImage ex_os_narrow ''in/a.png'' ex_short ''out'' 60 ''corners'') \<and>
   RGBAAt (bitmap (projr (processImage ex_os_narrow ''in/a.png'' ex_short ''out'' 60 ''corners''))) 1 39
     = rgba 0 0 0 255 \<and>
   stamp ex_face ''C'' (39 - 2 - 26) 150 (rgba 0 0 0 255) 1 39
     (stamp ex_face ''C'' 2 150 (rgba 0 0 0 255) 1 39
        (stamp ex_face ''C'' (39 - 2 - 26) 40 (rgba 0 0 0 255) 1 39
           (stamp ex_face ''C'' 2 40 (rgba 0 0 0 255) 1 39 (rgba 0 255 0 255))))
     = rgba 0 255 0 255"
proof -
  have d: "Dx (Bounds ex_narrow) = 39" "Dy (Bounds ex_narrow) = 50"
    by (simp_all add: Dx_def Dy_def ex_narrow_def i64_def)
  have m: "marginX_of 39 = 1"
    by (simp add: marginX_of_div)
  have r: "round (0.05 * 39 :: real) = 2"
    by (simp add: round_def)
  have l: "labelsOf ex_face ex_narrow ex_short 60 ''corners'' =
     [(''C'', 1, 40, rgba 0 0 0 255), (''C'', 12, 40, rgba 0 0 0 255),
      (''C'', 1, 150, rgba 0 0 0 255), (''C'', 12, 150, rgba 0 0 0 255)]"
    by (simp add: labelsOf_def labelCalls_def Let_def d m measureText_def ex_face_def ex_short_def
        i64_def quo_def)
  have p: "RGBAAt (drawLabels (canvas ex_narrow ex_short 60)
                     (labelsOf ex_face ex_narrow ex_short 60 ''corners'') ex_face) 1 39
           = rgba 0 0 0 255"
    unfolding l
    by (simp add: RGBAAt_def drawLabels_def addLabel_def In_def canvas_def Let_def ex_narrow_def
        ex_face_def fixed_I_def i64_def i32_def)
  have s: "stamp ex_face ''C'' (39 - 2 - 26) 150 (rgba 0 0 0 255) 1 39
     (stamp ex_face ''C'' 2 150 (rgba 0 0 0 255) 1 39
        (stamp ex_face ''C'' (39 - 2 - 26) 40 (rgba 0 0 0 255) 1 39
           (stamp ex_face ''C'' 2 40 (rgba 0 0 0 255) 1 39 (rgba 0 255 0 255))))
     = rgba 0 255 0 255"
    by (simp add: stamp_def ex_face_def fixed_I_def i64_def i32_def)
  have v: "valid_height 60" by (simp add: valid_height_def)
  have q: "\<not> isl (processImage ex_os_narrow ''in/a.png'' ex_short ''out'' 60 ''corners'')"
    "RGBAAt (bitmap (projr (processImage ex_os_narrow ''in/a.png'' ex_short ''out'' 60 ''corners''))) 1 39
     = rgba 0 0 0 255"
    by (simp_all add: processImage_valid[OF ex_narrow_cooperative ex_narrow_valid(1) v ex_narrow_valid(2)] p)
  show ?thesis
    using d(1) r l s q by blast
qed

text \<open>
  C7. For every location other than \<^verbatim>\<open>"corners"\<close>, \<^verbatim>\<open>processImage\<close> returns what it
  returns for \<^verbatim>\<open>"center"\<close>, in every environment, so that no location makes it fail. For
  valid inputs in a cooperating environment it writes the canvas with two labels drawn on
  it, the top one and then the bottom one, both at \<open>x = width/2 - textWidth/2\<close> with Go's
  integer division and the width of the image: every pixel of the bitmap is the pixel of
  the canvas stamped by these two labels.
\<close>

theorem center_default:
  assumes "loc \<noteq> ''corners''"
  shows "processImage os imagePath banner outputDir bannerHeight loc =
           processImage os imagePath banner outputDir bannerHeight ''center'' \<and>
         (cooperative os imagePath img format face \<and> valid_source img \<and>
          valid_height bannerHeight \<and> canvas_fits img bannerHeight \<and>
          in64 (measure face (Text banner)) \<and>
          0 \<le> x \<and> x < Dx (Bounds img) \<and> 0 \<le> y \<and> y < Dy (Bounds img) + 2 * bannerHeight \<longrightarrow>
          (let centerX = quo (Dx (Bounds img)) 2 - quo (measure face (Text banner)) 2;
               topY = quo bannerHeight 2 + 10;
               botY = Dy (Bounds img) + 2 * bannerHeight - quo bannerHeight 2 + 10;
               text = Text banner; col = TextColor banner
           in \<exists>c w. compose img banner bannerHeight = Inr c \<and>
                 processImage os imagePath banner outputDir bannerHeight loc = Inr w \<and>
                 bitmap w = addLabel (addLabel c text centerX topY col face) text centerX botY col face \<and>
                 RGBAAt (bitmap w) x y =
                   stamp face text centerX botY col x y
                     (stamp face text centerX topY col x y (RGBAAt c x y))))"
proof -
  have l: "labelCalls f bn loc w n b = labelCalls f bn ''center'' w n b" for f bn w n b
    using assms by (simp add: labelCalls_def)
  have a: "processImage os imagePath banner outputDir bannerHeight loc =
           processImage os imagePath banner outputDir bannerHeight ''center''"
    unfolding processImage_def l by (rule refl)
  have b: "let centerX = quo (Dx (Bounds img)) 2 - quo (measure face (Text banner)) 2;
               topY = quo bannerHeight 2 + 10;
               botY = Dy (Bounds img) + 2 * bannerHeight - quo bannerHeight 2 + 10;
               text = Text banner; col = TextColor banner
           in \<exists>c w. compose img banner bannerHeight = Inr c \<and>
                 processImage os imagePath banner outputDir bannerHeight loc = Inr w \<and>
                 bitmap w = addLabel (addLabel c text centerX topY col face) text centerX botY col face \<and>
                 RGBAAt (bitmap w) x y =
                   stamp face text centerX botY col x y
                     (stamp face text centerX topY col x y (RGBAAt c x y))"
    if h: "cooperative os imagePath img format face" "valid_source img"
          "valid_height bannerHeight" "canvas_fits img bannerHeight"
          "in64 (measure face (Text banner))"
          "0 \<le> x" "x < Dx (Bounds img)" "0 \<le> y" "y < Dy (Bounds img) + 2 * bannerHeight"
  proof -
    have i: "In (Pt x y) (Rect (canvas img banner bannerHeight))"
      by (rule canvas_In[OF h(2) h(6-9)])
    show ?thesis
      unfolding Let_def
      by (simp add: compose_valid[OF h(2-4)] processImage_valid[OF h(1-4)]
          labelsOf_default[OF h(2,3,5) assms] drawLabels_def RGBAAt_addLabel i)
  qed
  show ?thesis using a b by blast
qed

text \<open>
  The sample with the location \<^verbatim>\<open>"diagonal"\<close>: two labels at \<open>x = 11\<close>; pixel (11, 39),
  green on the canvas, is under the top label and black in the bitmap.
\<close>

theorem center_default_witness:
  "''diagonal'' \<noteq> ''corners'' \<and>
   cooperative ex_os ''in/a.png'' ex_src ''png'' ex_face \<and> valid_source ex_src \<and> valid_height 60 \<and>
   canvas_fits ex_src 60 \<and> in64 (measure ex_face (Text cui)) \<and>
   processImage ex_os ''in/a.png'' cui ''out'' 60 ''diagonal'' =
     processImage ex_os ''in/a.png'' cui ''out'' 60 ''center'' \<and>
   (\<exists>c w. compose ex_src cui 60 = Inr c \<and>
       processImage ex_os ''in/a.png'' cui ''out'' 60 ''diagonal'' = Inr w \<and>
       bitmap w = addLabel (addLabel c ''CUI'' 11 40 (rgba 0 0 0 255) ex_face)
                    ''CUI'' 11 150 (rgba 0 0 0 255) ex_face \<and>
       RGBAAt c 11 39 = rgba 0 255 0 255 \<and> RGBAAt (bitmap w) 11 39 = rgba 0 0 0 255)"
proof -
  have n: "''diagonal'' \<noteq> ''corners''" by simp
  have c: "cooperative ex_os ''in/a.png'' ex_src ''png'' ex_face"
    by (simp add: ex_cooperative)
  have t: "in64 (measure ex_face (Text cui))"
    by (simp add: in64_def ex_face_def cui_def)
  have d: "Dx (Bounds ex_src) = 100" "Dy (Bounds ex_src) = 50"
    by (simp_all add: Dx_def Dy_def ex_src_def i64_def)
  have e: "Text cui = ''CUI''" "TextColor cui = rgba 0 0 0 255" "measure ex_face ''CUI'' = 78"
          "quo 60 2 = 30" "quo 100 2 = 50" "quo 78 2 = 39"
    by (simp_all add: quo_def ex_face_def cui_def)
  have g: "RGBAAt (canvas ex_src cui 60) 11 39 = rgba 0 255 0 255"
    by (simp add: RGBAAt_def In_def canvas_def Let_def ex_src_def cui_def)
  have s: "stamp ex_face ''CUI'' 11 150 (rgba 0 0 0 255) 11 39
             (stamp ex_face ''CUI'' 11 40 (rgba 0 0 0 255) 11 39 (rgba 0 255 0 255))
           = rgba 0 0 0 255"
    by (simp add: stamp_def ex_face_def fixed_I_def i64_def i32_def)
  note th = center_default[OF n, of ex_os "''in/a.png''" cui "''out''" 60 ex_src "''png''" ex_face 11 39]
  have a: "processImage ex_os ''in/a.png'' cui ''out'' 60 ''diagonal'' =
     processImage ex_os ''in/a.png'' cui ''out'' 60 ''center''"
    using th by blast
  have H: "cooperative ex_os ''in/a.png'' ex_src ''png'' ex_face \<and> valid_source ex_src \<and>
           valid_height 60 \<and> canvas_fits ex_src 60 \<and> in64 (measure ex_face (Text cui)) \<and>
           0 \<le> (11::int) \<and> 11 < Dx (Bounds ex_src) \<and> 0 \<le> (39::int) \<and>
           39 < Dy (Bounds ex_src) + 2 * 60"
    using c ex_valid t by (simp add: d)
  have "\<exists>c w. compose ex_src cui 60 = Inr c \<and>
       processImage ex_os ''in/a.png'' cui ''out'' 60 ''diagonal'' = Inr w \<and>
       bitmap w = addLabel (addLabel c (Text cui)
                    (quo (Dx (Bounds ex_src)) 2 - quo (measure ex_face (Text cui)) 2)
                    (quo 60 2 + 10) (TextColor cui) ex_face) (Text cui)
                    (quo (Dx (Bounds ex_src)) 2 - quo (measure ex_face (Text cui)) 2)
                    (Dy (Bounds ex_src) + 2 * 60 - quo 60 2 + 10) (TextColor cui) ex_face \<and>
       RGBAAt (bitmap w) 11 39 =
         stamp ex_face (Text cui) (quo (Dx (Bounds ex_src)) 2 - quo (measure ex_face (Text cui)) 2)
           (Dy (Bounds ex_src) + 2 * 60 - quo 60 2 + 10) (TextColor cui) 11 39
           (stamp ex_face (Text cui) (quo (Dx (Bounds ex_src)) 2 - quo (measure ex_face (Text cui)) 2)
              (quo 60 2 + 10) (TextColor cui) 11 39 (RGBAAt c 11 39))"
    by (rule mp[OF conjunct2[OF th] H, unfolded Let_def])
  then obtain c0 w0 where o: "compose ex_src cui 60 = Inr c0"
       "processImage ex_os ''in/a.png'' cui ''out'' 60 ''diagonal'' = Inr w0"
       "bitmap w0 = addLabel (addLabel c0 (Text cui)
                    (quo (Dx (Bounds ex_src)) 2 - quo (measure ex_face (Text cui)) 2)
                    (quo 60 2 + 10) (TextColor cui) ex_face) (Text cui)
                    (quo (Dx (Bounds ex_src)) 2 - quo (measure ex_face (Text cui)) 2)
                    (Dy (Bounds ex_src) + 2 * 60 - quo 60 2 + 10) (TextColor cui) ex_face"
       "RGBAAt (bitmap w0) 11 39 =
         stamp ex_face (Text cui) (quo (Dx (Bounds ex_src)) 2 - quo (measure ex_face (Text cui)) 2)
           (Dy (Bounds ex_src) + 2 * 60 - quo 60 2 + 10) (TextColor cui) 11 39
           (stamp ex_face (Text cui) (quo (Dx (Bounds ex_src)) 2 - quo (measure ex_face (Text cui)) 2)
              (quo 60 2 + 10) (TextColor cui) 11 39 (RGBAAt c0 11 39))"
    by blast
  have c0: "c0 = canvas ex_src cui 60"
    using o(1) by (simp add: compose_valid[OF ex_valid])
  have "bitmap w0 = addLabel (addLabel c0 ''CUI'' 11 40 (rgba 0 0 0 255) ex_face)
                    ''CUI'' 11 150 (rgba 0 0 0 255) ex_face"
       "RGBAAt c0 11 39 = rgba 0 255 0 255" "RGBAAt (bitmap w0) 11 39 = rgba 0 0 0 255"
    using o(3) o(4) by (simp_all add: c0 g d e s)
  then have "\<exists>c w. compose ex_src cui 60 = Inr c \<and>
       processImage ex_os ''in/a.png'' cui ''out'' 60 ''diagonal'' = Inr w \<and>
       bitmap w = addLabel (addLabel c ''CUI'' 11 40 (rgba 0 0 0 255) ex_face)
                    ''CUI'' 11 150 (rgba 0 0 0 255) ex_face \<and>
       RGBAAt c 11 39 = rgba 0 255 0 255 \<and> RGBAAt (bitmap w) 11 39 = rgba 0 0 0 255"
    using o(1,2) by blast
  then show ?thesis using n c ex_valid t a by blast
qed


text \<open>
  C8. When the directory is read, and no call of \<^verbatim>\<open>processImage\<close> panics,
  \<^verbatim>\<open>processDirectory\<close> runs \<^verbatim>\<open>processImage\<close> on the entries that are not directories, on
  each of them once and in their order, on no other path, and whatever the calls before
  returned; it returns the error \<^verbatim>\<open>some images failed to process\<close> if and only if one of
  these calls returned an error. A subdirectory is skipped, not entered.
\<close>

theorem batch_driver:
  assumes "ReadDir os dirPath = Some files"
    and "\<forall>file\<in>set files. \<not> IsDir file \<longrightarrow>
           processImage os (Join os dirPath (Name file)) banner outputDir bannerHeight loc \<noteq> Inl Panicked"
  shows "processDirectory os dirPath banner outputDir bannerHeight loc =
           Done (map (\<lambda>file. (Join os dirPath (Name file),
                         processImage os (Join os dirPath (Name file)) banner outputDir bannerHeight loc))
                     (filter (\<lambda>file. \<not> IsDir file) files))
                (if \<exists>file\<in>set files. \<not> IsDir file \<and>
                       isl (processImage os (Join os dirPath (Name file)) banner outputDir bannerHeight loc)
                 then Some SomeImagesFailed else None)"
proof -
  have "processDirectory os dirPath banner outputDir bannerHeight loc
        = dirLoop os dirPath banner outputDir bannerHeight loc files False []"
    by (simp add: processDirectory_def assms(1))
  also have "\<dots> =
           Done ([] @ map (\<lambda>file. (Join os dirPath (Name file),
                         processImage os (Join os dirPath (Name file)) banner outputDir bannerHeight loc))
                     (filter (\<lambda>file. \<not> IsDir file) files))
                (if False \<or> (\<exists>file\<in>set files. \<not> IsDir file \<and>
                       isl (processImage os (Join os dirPath (Name file)) banner outputDir bannerHeight loc))
                 then Some SomeImagesFailed else None)"
    by (rule dirLoop_journal[OF assms(2)])
  finally show ?thesis by simp
qed

text \<open>
  A directory with three images, a file that does not decode and a subdirectory: four
  files are processed, the one failure is in the journal, and the batch fails in aggregate.
\<close>

theorem batch_driver_witness:
  "ReadDir ex_os ''in'' =
     Some [\<lparr>Name = ''a.png'', IsDir = False\<rparr>, \<lparr>Name = ''bad.png'', IsDir = False\<rparr>,
           \<lparr>Name = ''sub'', IsDir = True\<rparr>, \<lparr>Name = ''b.png'', IsDir = False\<rparr>,
           \<lparr>Name = ''c.png'', IsDir = False\<rparr>] \<and>
   \<not> isl (processImage ex_os ''in/a.png'' cui ''out'' 60 ''center'') \<and>
   processImage ex_os ''in/bad.png'' cui ''out'' 60 ''center'' = Inl (Returned DecodeFailed) \<and>
   \<not> isl (processImage ex_os ''in/b.png'' cui ''out'' 60 ''center'') \<and>
   \<not> isl (processImage ex_os ''in/c.png'' cui ''out'' 60 ''center'') \<and>
   processDirectory ex_os ''in'' cui ''out'' 60 ''center'' =
     Done [(''in/a.png'', processImage ex_os ''in/a.png'' cui ''out'' 60 ''center''),
           (''in/bad.png'', Inl (Returned DecodeFailed)),
           (''in/b.png'', processImage ex_os ''in/b.png'' cui ''out'' 60 ''center''),
           (''in/c.png'', processImage ex_os ''in/c.png'' cui ''out'' 60 ''center'')]
          (Some SomeImagesFailed)"
proof -
  let ?files = "[\<lparr>Name = ''a.png'', IsDir = False\<rparr>, \<lparr>Name = ''bad.png'', IsDir = False\<rparr>,
           \<lparr>Name = ''sub'', IsDir = True\<rparr>, \<lparr>Name = ''b.png'', IsDir = False\<rparr>,
           \<lparr>Name = ''c.png'', IsDir = False\<rparr>]"
  have r: "ReadDir ex_os ''in'' = Some ?files" by (simp add: ex_os_def)
  have j: "Join ex_os ''in'' n = ''in/'' @ n" for n by (simp add: ex_os_def)
  have g: "\<not> isl (processImage ex_os ''in/a.png'' cui ''out'' 60 ''center'')"
          "\<not> isl (processImage ex_os ''in/b.png'' cui ''out'' 60 ''center'')"
          "\<not> isl (processImage ex_os ''in/c.png'' cui ''out'' 60 ''center'')"
    by (simp_all add: ex_good)
  have np: "\<forall>file\<in>set ?files. \<not> IsDir file \<longrightarrow>
           processImage ex_os (Join ex_os ''in'' (Name file)) cui ''out'' 60 ''center'' \<noteq> Inl Panicked"
    using g by (auto simp add: j ex_bad)
  show ?thesis
    using batch_driver[OF r np] g r by (simp add: j ex_bad)
qed


text \<open>
  C9. The format that \<^verbatim>\<open>image.Decode\<close> reports is the format of the output: whenever
  \<^verbatim>\<open>processImage\<close> writes a file, the encoder used is the one of the decoded format, which
  is \<^verbatim>\<open>"jpeg"\<close> or \<^verbatim>\<open>"png"\<close>, and in a cooperating environment whose canvas is
  allocated a file is written so. For any other decoded format the call returns the
  unsupported-format error, whatever the banner height, the font and the later steps:
  the check of line 217 comes before the annotation.
\<close>

theorem format_preserved:
  assumes "decoded (run os imagePath) = Some (img, format)"
  shows "(processImage os imagePath banner outputDir bannerHeight loc = Inr w \<longrightarrow>
            encoder w = format \<and> (format = ''jpeg'' \<or> format = ''png'')) \<and>
         (cooperative os imagePath img format face \<and> compose img banner bannerHeight = Inr c \<longrightarrow>
            (\<exists>w'. processImage os imagePath banner outputDir bannerHeight loc = Inr w' \<and>
                  encoder w' = format)) \<and>
         ((statNotExist (run os imagePath) \<or> testFileCreated (run os imagePath)) \<and>
          opened (run os imagePath) \<and> format \<noteq> ''jpeg'' \<and> format \<noteq> ''png'' \<longrightarrow>
            processImage os imagePath banner outputDir bannerHeight loc
            = Inl (Returned (UnsupportedFormat format imagePath)))"
proof -
  have "encoder w = format \<and> (format = ''jpeg'' \<or> format = ''png'')"
    if "processImage os imagePath banner outputDir bannerHeight loc = Inr w"
    using that assms
    by (auto simp add: processImage_def Let_def split: if_splits sum.splits option.splits)
  moreover have "\<exists>w'. processImage os imagePath banner outputDir bannerHeight loc = Inr w' \<and>
                  encoder w' = format"
    if "cooperative os imagePath img format face" "compose img banner bannerHeight = Inr c"
    using that by (simp add: processImage_cooperative)
  moreover have "processImage os imagePath banner outputDir bannerHeight loc
            = Inl (Returned (UnsupportedFormat format imagePath))"
    if "statNotExist (run os imagePath) \<or> testFileCreated (run os imagePath)"
       "opened (run os imagePath)" "format \<noteq> ''jpeg''" "format \<noteq> ''png''"
    using that assms by (auto simp add: processImage_def Let_def)
  ultimately show ?thesis by blast
qed

text \<open>
  The sample \<^verbatim>\<open>in/a.png\<close> is written by the PNG encoder; \<^verbatim>\<open>in/c.gif\<close>, decoded in a third
  format, is refused, also with a banner height of \<open>3 * 10^18\<close>, for which the canvas of
  \<^verbatim>\<open>in/a.png\<close> cannot be allocated.
\<close>

theorem format_preserved_witness:
  "decoded (run ex_os ''in/a.png'') = Some (ex_src, ''png'') \<and>
   \<not> isl (processImage ex_os ''in/a.png'' cui ''out'' 60 ''center'') \<and>
   encoder (projr (processImage ex_os ''in/a.png'' cui ''out'' 60 ''center'')) = ''png'' \<and>
   decoded (run ex_os ''in/c.gif'') = Some (ex_src, ''gif'') \<and>
   statNotExist (run ex_os ''in/c.gif'') \<and> opened (run ex_os ''in/c.gif'') \<and>
   processImage ex_os ''in/c.gif'' cui ''out'' 60 ''center''
     = Inl (Returned (UnsupportedFormat ''gif'' ''in/c.gif'')) \<and>
   processImage ex_os ''in/a.png'' cui ''out'' 3000000000000000000 ''center'' = Inl Panicked \<and>
   processImage ex_os ''in/c.gif'' cui ''out'' 3000000000000000000 ''center''
     = Inl (Returned (UnsupportedFormat ''gif'' ''in/c.gif''))"
proof -
  have d: "decoded (run ex_os ''in/a.png'') = Some (ex_src, ''png'')"
          "decoded (run ex_os ''in/c.gif'') = Some (ex_src, ''gif'')"
          "statNotExist (run ex_os ''in/c.gif'')" "opened (run ex_os ''in/c.gif'')"
    by (simp_all add: ex_os_def ex_answers_def)
  have g: "\<not> isl (processImage ex_os ''in/a.png'' cui ''out'' 60 ''center'')"
    by (simp add: ex_good)
  then have i: "processImage ex_os ''in/a.png'' cui ''out'' 60 ''center''
                = Inr (projr (processImage ex_os ''in/a.png'' cui ''out'' 60 ''center''))"
    by simp
  have a: "encoder (projr (processImage ex_os ''in/a.png'' cui ''out'' 60 ''center'')) = ''png''"
    using format_preserved[OF d(1), of cui "''out''" 60 "''center''"
            "projr (processImage ex_os ''in/a.png'' cui ''out'' 60 ''center'')"] i
    by blast
  have n: "''gif'' \<noteq> ''jpeg''" "''gif'' \<noteq> ''png''" by simp_all
  have b: "processImage ex_os ''in/c.gif'' cui ''out'' h ''center''
           = Inl (Returned (UnsupportedFormat ''gif'' ''in/c.gif''))" for h
    using format_preserved[OF d(2), of cui "''out''" h "''center''"] d(3,4) n
    by blast
  show ?thesis
    using d g a b ex_huge_panics by blast
qed


text \<open>
  C10. For valid inputs the bounds of the bitmap written start at the origin, and two
  sources with the same content, that is the same width, height and colours at the same
  offsets from the minimum of their bounds, wherever these bounds lie, give the same
  result: the copy of lines 238 to 243 starts from \<^verbatim>\<open>bounds.Min\<close>.
\<close>

theorem origin_independent:
  assumes "cooperative os imagePath img format face"
    and "cooperative os' imagePath img' format face"
    and "Join os' = Join os" "Base os' = Base os"
    and "valid_source img" "valid_source img'" "valid_height bannerHeight"
    and "canvas_fits img bannerHeight"
    and "same_content img img'"
  shows "processImage os' imagePath banner outputDir bannerHeight loc
         = processImage os imagePath banner outputDir bannerHeight loc \<and>
         (\<exists>w. processImage os imagePath banner outputDir bannerHeight loc = Inr w \<and>
              Min_pt (Rect (bitmap w)) = Pt 0 0)"
proof -
  have f: "canvas_fits img' bannerHeight"
    using assms(8,9) by (simp add: canvas_fits_def same_content_def)
  have d: "Dx (Bounds img') = Dx (Bounds img)" "Dy (Bounds img') = Dy (Bounds img)"
    using assms(9) by (simp_all add: Dx_valid[OF assms(5)] Dx_valid[OF assms(6)]
        Dy_valid[OF assms(5)] Dy_valid[OF assms(6)] same_content_def)
  have l: "labelsOf face img' banner bannerHeight loc = labelsOf face img banner bannerHeight loc"
    by (simp add: labelsOf_def d)
  show ?thesis
    by (simp add: processImage_valid[OF assms(1) assms(5) assms(7,8)]
        processImage_valid[OF assms(2) assms(6) assms(7) f]
        canvas_same_content[OF assms(9)] l assms(3,4) canvas_Rect)
qed

text \<open>The sample and the sample with its bounds moved by (5, -7) give the same result.\<close>

theorem origin_independent_witness:
  "cooperative ex_os ''in/a.png'' ex_src ''png'' ex_face \<and>
   cooperative ex_os_moved ''in/a.png'' ex_moved ''png'' ex_face \<and>
   Min_pt (Bounds ex_src) = Pt 0 0 \<and> Min_pt (Bounds ex_moved) = Pt 5 (- 7) \<and>
   valid_source ex_src \<and> valid_source ex_moved \<and> valid_height 60 \<and> canvas_fits ex_src 60 \<and>
   same_content ex_src ex_moved \<and>
   processImage ex_os_moved ''in/a.png'' cui ''out'' 60 ''corners''
     = processImage ex_os ''in/a.png'' cui ''out'' 60 ''corners'' \<and>
   (\<exists>w. processImage ex_os ''in/a.png'' cui ''out'' 60 ''corners'' = Inr w \<and>
        Min_pt (Rect (bitmap w)) = Pt 0 0)"
proof -
  have c: "cooperative ex_os ''in/a.png'' ex_src ''png'' ex_face"
    by (simp add: ex_cooperative)
  have c': "cooperative ex_os_moved ''in/a.png'' ex_moved ''png'' ex_face"
    by (simp add: cooperative_def ex_os_moved_def ex_answers_def)
  have p: "Join ex_os_moved = Join ex_os" "Base ex_os_moved = Base ex_os"
    by (simp_all add: ex_os_moved_def)
  have v: "valid_source ex_moved" "Min_pt (Bounds ex_src) = Pt 0 0" "Min_pt (Bounds ex_moved) = Pt 5 (- 7)"
    by (simp_all add: valid_source_def ex_moved_def ex_src_def)
  have s: "same_content ex_src ex_moved"
    by (simp add: same_content_def ex_src_def ex_moved_def)
  show ?thesis
    using origin_independent[OF c c' p ex_valid(1) v(1) ex_valid(2,3) s, of cui "''out''" "''corners''"]
      c c' v ex_valid s
    by simp
qed


end
